theory Spec2Isabelle
  imports Complex_Main "HOL-Library.Word" "HOL-Library.Sublist" "HOL-Library.Multiset"
begin

section \<open>JavaScript strings\<close>

text \<open>
  A JavaScript string is a sequence of UTF-16 code units; \<open>length\<close>, \<open>slice\<close>,
  \<open>padEnd\<close> and \<open>trim\<close> all count and inspect code units. The three scripts
  (\<open>cloudFlareApp.ts\<close>, \<open>gitHubCli.ts\<close>, \<open>gowaApp.ts\<close> and its n8n sibling) are
  modelled over this one string type. \<open>js\<close> embeds an ASCII literal.
\<close>

type_synonym jsstring = "16 word list"

definition js :: "string \<Rightarrow> jsstring" where
  "js s = map (\<lambda>c. of_char c) s"

text \<open>
  \<open>String.prototype.slice(start, end)\<close>: a negative index counts from the end, both
  indices are clamped to the string, and an empty range gives the empty string.
\<close>

definition slice :: "jsstring \<Rightarrow> int \<Rightarrow> int \<Rightarrow> jsstring" where
  "slice s start end' =
     (let n = int (length s);
          from = (if start < 0 then max (n + start) 0 else min start n);
          to = (if end' < 0 then max (n + end') 0 else min end' n)
      in take (nat (to - from)) (drop (nat from) s))"

text \<open>\<open>String.prototype.padEnd(maxLength)\<close> with the default filler, a space (U+0020).\<close>

definition padEnd :: "jsstring \<Rightarrow> int \<Rightarrow> jsstring" where
  "padEnd s maxLength =
     (if maxLength \<le> int (length s) then s
      else s @ replicate (nat maxLength - length s) 0x20)"

section \<open>cloudFlareApp.ts: the table-padding helper\<close>

text \<open>
  \<^verbatim>\<open>
  function pad(str: string, len: number) {
    return str.length > len
      ? str.slice(0, len - 1) + '...'      (the one-character ellipsis U+2026)
      : str.padEnd(len)
  }
  \<close>
  The column widths of the script are integers, so \<open>len\<close> is an \<open>int\<close>.
\<close>

definition ellipsis :: "16 word" where
  "ellipsis = 0x2026"

definition pad :: "jsstring \<Rightarrow> int \<Rightarrow> jsstring" where
  "pad str len =
     (if int (length str) > len then slice str 0 (len - 1) @ [ellipsis]
      else padEnd str len)"

lemma slice_prefix:
  assumes "0 \<le> k" and "k \<le> int (length s)"
  shows "slice s 0 k = take (nat k) s"
  using assms by (simp add: slice_def Let_def min_def)

lemma length_padEnd:
  "0 \<le> len \<Longrightarrow> int (length (padEnd s len)) = max len (int (length s))"
  by (simp add: padEnd_def)

text \<open>
  C10. For every string and every column width \<open>len \<ge> 1\<close>, \<open>pad\<close> returns a string of
  exactly \<open>len\<close> code units: a longer string is cut to its first \<open>len - 1\<close> code units
  followed by the ellipsis, any other string is filled on the right with spaces; and
  padding twice at the same width is padding once.
\<close>

theorem pad_exact_width:
  assumes "1 \<le> len"
  shows "int (length (pad s len)) = len
       \<and> (int (length s) > len \<longrightarrow> pad s len = take (nat (len - 1)) s @ [ellipsis])
       \<and> (int (length s) \<le> len \<longrightarrow> pad s len = s @ replicate (nat len - length s) 0x20)
       \<and> pad (pad s len) len = pad s len"
proof -
  have long: "pad s len = take (nat (len - 1)) s @ [ellipsis]" if "int (length s) > len"
    using that assms by (simp add: pad_def slice_prefix)
  have short: "pad s len = s @ replicate (nat len - length s) 0x20" if "int (length s) \<le> len"
    using that by (simp add: pad_def padEnd_def)
  have len: "int (length (pad s len)) = len"
  proof (cases "int (length s) > len")
    case True
    with assms show ?thesis by (simp add: long)
  next
    case False
    with assms show ?thesis by (simp add: short)
  qed
  from len have "pad (pad s len) len = pad s len"
    by (simp add: pad_def [of "pad s len"] padEnd_def)
  with long short len show ?thesis by blast
qed

theorem pad_exact_width_witness:
  "(1::int) \<le> 6
   \<and> int (length (pad (js ''CNAME-LONG'') 6)) = 6
   \<and> pad (js ''CNAME-LONG'') 6 = js ''CNAME'' @ [ellipsis]
   \<and> pad (js ''A'') 6 = js ''A     ''
   \<and> pad (pad (js ''A'') 6) 6 = pad (js ''A'') 6"
proof -
  have w: "(1::int) \<le> 6" by simp
  note long = pad_exact_width [OF w, of "js ''CNAME-LONG''"]
  note short = pad_exact_width [OF w, of "js ''A''"]
  have 1: "int (length (pad (js ''CNAME-LONG'') 6)) = 6"
    using long by blast
  have "int (length (js ''CNAME-LONG'')) > 6" by (simp add: js_def)
  with long have "pad (js ''CNAME-LONG'') 6 = take (nat (6 - 1)) (js ''CNAME-LONG'') @ [ellipsis]"
    by blast
  then have 2: "pad (js ''CNAME-LONG'') 6 = js ''CNAME'' @ [ellipsis]"
    by (simp add: js_def eval_nat_numeral)
  have "int (length (js ''A'')) \<le> 6" by (simp add: js_def)
  with short have "pad (js ''A'') 6 = js ''A'' @ replicate (nat 6 - length (js ''A'')) 0x20"
    by blast
  then have 3: "pad (js ''A'') 6 = js ''A     ''"
    by (simp add: js_def eval_nat_numeral)
  have 4: "pad (pad (js ''A'') 6) 6 = pad (js ''A'') 6"
    using short by blast
  from w 1 2 3 4 show ?thesis by blast
qed

section \<open>gitHubCli.ts: the external-command wrapper\<close>

text \<open>
  \<open>String.prototype.trim\<close> removes the WhiteSpace and LineTerminator code points of
  ECMAScript (all of them in the Basic Multilingual Plane) from both ends.
\<close>

definition isWhiteSpace :: "16 word \<Rightarrow> bool" where
  "isWhiteSpace c \<longleftrightarrow>
     c \<in> {0x0009, 0x000A, 0x000B, 0x000C, 0x000D, 0x0020, 0x00A0, 0x1680,
          0x2028, 0x2029, 0x202F, 0x205F, 0x3000, 0xFEFF}
     \<or> (0x2000 \<le> c \<and> c \<le> 0x200A)"

definition trim :: "jsstring \<Rightarrow> jsstring" where
  "trim s = rev (dropWhile isWhiteSpace (rev (dropWhile isWhiteSpace s)))"

text \<open>
  What \<open>Bun.spawn\<close> gives back once the child is over: both captured streams and the
  exit status; or the spawn itself fails (no such executable) and \<open>Bun.spawn\<close> throws.
  The child is the environment of the script: \<open>spawn\<close> is a parameter of \<open>run\<close>, a
  function of the command vector and of what the child finds on its standard input.
\<close>

record proc =
  out :: jsstring
  err :: jsstring
  code :: int

datatype stdin = Inherit | Pipe jsstring

datatype spawned = SpawnFailed jsstring | Exited proc

datatype error = Error jsstring | SpawnError jsstring

text \<open>
  \<^verbatim>\<open>
  async function run(cmd: string[], input?: string) {
    const proc = Bun.spawn(cmd, { stdin: input ? "pipe" : "inherit", stdout: "pipe", stderr: "pipe" })
    if (input && proc.stdin) { proc.stdin.write(input); proc.stdin.end() }
    const out = await new Response(proc.stdout).text()
    const err = await new Response(proc.stderr).text()
    const code = await proc.exited
    if (code !== 0) { throw new Error(err || out) }
    return out.trim()
  }
  \<close>
  An absent and an empty \<open>input\<close> are both falsy: the child inherits the terminal.
\<close>

definition stdin_for :: "jsstring option \<Rightarrow> stdin" where
  "stdin_for input = (case input of None \<Rightarrow> Inherit
                      | Some i \<Rightarrow> if i = [] then Inherit else Pipe i)"

definition run :: "(jsstring list \<Rightarrow> stdin \<Rightarrow> spawned) \<Rightarrow> jsstring list \<Rightarrow> jsstring option
                   \<Rightarrow> error + jsstring" where
  "run spawn cmd input =
     (case spawn cmd (stdin_for input) of
        SpawnFailed msg \<Rightarrow> Inl (SpawnError msg)
      | Exited p \<Rightarrow>
          if code p \<noteq> 0 then Inl (Error (if err p \<noteq> [] then err p else out p))
          else Inr (trim (out p)))"

text \<open>A scripted child for the examples: \<open>gh\<close> answers, anything else fails.\<close>

definition spawn_example :: "jsstring list \<Rightarrow> stdin \<Rightarrow> spawned" where
  "spawn_example cmd i =
     (if cmd = [js ''gh'', js ''repo'', js ''delete'', js ''me/x'', js ''--yes'']
        then Exited \<lparr>out = js '' done\<newline>'', err = [], code = 0\<rparr>
      else if cmd = [js ''gh'', js ''repo'', js ''view'', js ''nope'']
        then Exited \<lparr>out = js ''{}'', err = js ''not found'', code = 1\<rparr>
      else Exited \<lparr>out = js ''usage'', err = [], code = 2\<rparr>)"

lemma trim_decompose:
  "\<exists>pre suf. s = pre @ trim s @ suf \<and> (\<forall>c \<in> set pre. isWhiteSpace c)
             \<and> (\<forall>c \<in> set suf. isWhiteSpace c)"
proof -
  let ?a = "takeWhile isWhiteSpace s"
  let ?m = "dropWhile isWhiteSpace s"
  let ?b = "rev (takeWhile isWhiteSpace (rev ?m))"
  have "rev (rev ?m) = rev (takeWhile isWhiteSpace (rev ?m) @ dropWhile isWhiteSpace (rev ?m))"
    by (simp only: takeWhile_dropWhile_id)
  then have m: "?m = trim s @ ?b"
    by (simp only: rev_rev_ident rev_append trim_def)
  have "s = ?a @ ?m" by simp
  with m have "s = ?a @ trim s @ ?b" by simp
  moreover have "\<forall>c \<in> set ?a. isWhiteSpace c"
    by (metis set_takeWhileD)
  moreover have "\<forall>c \<in> set ?b. isWhiteSpace c"
    by (metis set_rev set_takeWhileD)
  ultimately show ?thesis by blast
qed

lemma trim_ends:
  assumes "trim s \<noteq> []"
  shows "\<not> isWhiteSpace (hd (trim s)) \<and> \<not> isWhiteSpace (last (trim s))"
proof -
  let ?m = "dropWhile isWhiteSpace s"
  let ?r = "dropWhile isWhiteSpace (rev ?m)"
  from assms have r: "?r \<noteq> []" by (simp add: trim_def)
  then have "\<not> isWhiteSpace (hd ?r)" by (rule hd_dropWhile)
  with r have l: "\<not> isWhiteSpace (last (trim s))"
    by (simp add: trim_def last_rev)
  have m: "?m \<noteq> []"
  proof
    assume "?m = []"
    then have "?r = []" by (simp only: rev.simps dropWhile.simps)
    with r show False by contradiction
  qed
  then have hm: "\<not> isWhiteSpace (hd ?m)" by (rule hd_dropWhile)
  obtain suf where "?m = trim s @ suf"
    by (metis trim_def rev_append rev_rev_ident takeWhile_dropWhile_id)
  with assms have "hd ?m = hd (trim s)" by simp
  with hm l show ?thesis by simp
qed

text \<open>
  C6. For every command vector and optional input, once the child has run: on exit
  status zero \<open>run\<close> returns the captured standard output with the whitespace around it
  removed (the output is whitespace, the result, whitespace; the result neither starts
  nor ends with whitespace); on any other status it fails with an error carrying the
  captured standard error, or the captured standard output when standard error is empty.
\<close>

theorem run_contract:
  assumes "spawn cmd (stdin_for input) = Exited p"
  shows "(code p = 0 \<longrightarrow>
            run spawn cmd input = Inr (trim (out p))
          \<and> (\<exists>pre suf. out p = pre @ trim (out p) @ suf
                \<and> (\<forall>c \<in> set pre. isWhiteSpace c) \<and> (\<forall>c \<in> set suf. isWhiteSpace c))
          \<and> (trim (out p) \<noteq> [] \<longrightarrow>
                \<not> isWhiteSpace (hd (trim (out p))) \<and> \<not> isWhiteSpace (last (trim (out p)))))
       \<and> (code p \<noteq> 0 \<longrightarrow>
            run spawn cmd input = Inl (Error (if err p = [] then out p else err p)))"
proof (intro conjI impI)
  assume "code p = 0"
  with assms show "run spawn cmd input = Inr (trim (out p))"
    by (simp add: run_def)
next
  show "\<exists>pre suf. out p = pre @ trim (out p) @ suf
          \<and> (\<forall>c \<in> set pre. isWhiteSpace c) \<and> (\<forall>c \<in> set suf. isWhiteSpace c)"
    by (rule trim_decompose)
next
  assume "trim (out p) \<noteq> []"
  then show "\<not> isWhiteSpace (hd (trim (out p)))" by (simp add: trim_ends)
next
  assume "trim (out p) \<noteq> []"
  then show "\<not> isWhiteSpace (last (trim (out p)))" by (simp add: trim_ends)
next
  assume "code p \<noteq> 0"
  with assms show "run spawn cmd input = Inl (Error (if err p = [] then out p else err p))"
    by (simp add: run_def)
qed

lemma trim_example: "trim (js '' done\<newline>'') = js ''done''"
  by (simp add: trim_def js_def isWhiteSpace_def)

theorem run_contract_witness:
  "spawn_example [js ''gh'', js ''repo'', js ''delete'', js ''me/x'', js ''--yes''] (stdin_for None)
     = Exited \<lparr>out = js '' done\<newline>'', err = [], code = 0\<rparr>
   \<and> run spawn_example [js ''gh'', js ''repo'', js ''delete'', js ''me/x'', js ''--yes''] None
     = Inr (js ''done'')
   \<and> spawn_example [js ''gh'', js ''repo'', js ''view'', js ''nope''] (stdin_for None)
     = Exited \<lparr>out = js ''{}'', err = js ''not found'', code = 1\<rparr>
   \<and> run spawn_example [js ''gh'', js ''repo'', js ''view'', js ''nope''] None
     = Inl (Error (js ''not found''))
   \<and> spawn_example [js ''ls''] (stdin_for (Some (js ''x'')))
     = Exited \<lparr>out = js ''usage'', err = [], code = 2\<rparr>
   \<and> run spawn_example [js ''ls''] (Some (js ''x'')) = Inl (Error (js ''usage''))"
proof -
  have a: "spawn_example [js ''gh'', js ''repo'', js ''delete'', js ''me/x'', js ''--yes'']
             (stdin_for None) = Exited \<lparr>out = js '' done\<newline>'', err = [], code = 0\<rparr>"
    by (simp add: spawn_example_def)
  have b: "spawn_example [js ''gh'', js ''repo'', js ''view'', js ''nope''] (stdin_for None)
             = Exited \<lparr>out = js ''{}'', err = js ''not found'', code = 1\<rparr>"
    by (simp add: spawn_example_def js_def)
  have c: "spawn_example [js ''ls''] (stdin_for (Some (js ''x'')))
             = Exited \<lparr>out = js ''usage'', err = [], code = 2\<rparr>"
    by (simp add: spawn_example_def js_def)
  have "run spawn_example [js ''gh'', js ''repo'', js ''delete'', js ''me/x'', js ''--yes''] None
          = Inr (js ''done'')"
    using run_contract [where spawn = spawn_example and input = None, OF a]
    by (simp add: trim_example)
  moreover have "run spawn_example [js ''gh'', js ''repo'', js ''view'', js ''nope''] None
          = Inl (Error (js ''not found''))"
    using run_contract [where spawn = spawn_example and input = None, OF b]
    by (simp add: js_def)
  moreover have "run spawn_example [js ''ls''] (Some (js ''x'')) = Inl (Error (js ''usage''))"
    using run_contract [where spawn = spawn_example and input = "Some (js ''x'')", OF c]
    by simp
  ultimately show ?thesis using a b c by blast
qed

section \<open>gitHubCli.ts: filtering and sorting the repository list\<close>

text \<open>
  The list comes from \<open>JSON.parse\<close> and is typed \<open>any[]\<close>: a property of an entry is a
  string, \<open>null\<close>, or not there at all (\<open>undefined\<close>). The functions read
  \<open>visibility\<close> and \<open>updatedAt\<close>; whatever else an entry carries (\<open>url\<close>,
  \<open>createdAt\<close>, \<open>pushedAt\<close>) lives in the extension of the record.
\<close>

datatype jsfield = JUndefined | JNull | JStr jsstring

record repo =
  name :: jsstring
  visibility :: jsfield
  updatedAt :: jsfield

text \<open>Truthiness, as \<open>r.updatedAt && ...\<close> tests it: the empty string is falsy.\<close>

fun truthy :: "jsfield \<Rightarrow> bool" where
  "truthy JUndefined = False"
| "truthy JNull = False"
| "truthy (JStr s) = (s \<noteq> [])"

subsection \<open>filterByVisibility\<close>

text \<open>
  \<^verbatim>\<open>
  function filterByVisibility(repos: any[], visibility: "public" | "private") {
    return repos.filter(r => r.visibility?.toLowerCase() === visibility)
  }
  \<close>
  The requested value has the type \<open>"public" | "private"\<close>. The runtime's
  \<open>String.prototype.toLowerCase\<close> (Unicode case mapping) is a parameter;
  \<open>toLowerCase_ascii\<close>, which maps A to Z only, instantiates it in the examples.
\<close>

datatype Visibility = Public | Private

fun visibility_str :: "Visibility \<Rightarrow> jsstring" where
  "visibility_str Public = js ''public''"
| "visibility_str Private = js ''private''"

definition filterByVisibility ::
  "(jsstring \<Rightarrow> jsstring) \<Rightarrow> 'a repo_scheme list \<Rightarrow> Visibility \<Rightarrow> 'a repo_scheme list" where
  "filterByVisibility toLowerCase repos v =
     filter (\<lambda>r. case visibility r of
                   JStr s \<Rightarrow> toLowerCase s = visibility_str v
                 | _ \<Rightarrow> False) repos"

text \<open>
  \<open>Array.prototype.filter\<close> builds a new array and never writes to its receiver. On
  a heap of arrays (an address is an index, allocation appends), the call is:
\<close>

type_synonym 'r heap = "'r list list"

definition filterByVisibility_heap ::
  "(jsstring \<Rightarrow> jsstring) \<Rightarrow> 'a repo_scheme heap \<Rightarrow> nat \<Rightarrow> Visibility
     \<Rightarrow> 'a repo_scheme heap \<times> nat" where
  "filterByVisibility_heap toLowerCase h repos v =
     (h @ [filterByVisibility toLowerCase (h ! repos) v], length h)"

definition toLowerCase_ascii :: "jsstring \<Rightarrow> jsstring" where
  "toLowerCase_ascii s = map (\<lambda>c. if 0x41 \<le> c \<and> c \<le> 0x5A then c + 0x20 else c) s"

text \<open>Two strings are equal case-insensitively when their lower-case forms are equal.\<close>

definition equal_ignoring_case :: "(jsstring \<Rightarrow> jsstring) \<Rightarrow> jsstring \<Rightarrow> jsstring \<Rightarrow> bool" where
  "equal_ignoring_case toLowerCase a b \<longleftrightarrow> toLowerCase a = toLowerCase b"

text \<open>
  C4. For every repository list and each of the two visibility values (which
  \<open>toLowerCase\<close> leaves as they are), \<open>filterByVisibility\<close> returns, in the order of
  the input, exactly the entries that have a visibility string equal to the requested
  value up to case; and the call leaves the input array as it was, the result being a
  new array.
\<close>

theorem filterByVisibility_exact:
  assumes "toLowerCase (visibility_str v) = visibility_str v"
      and "repos < length h"
  shows "filterByVisibility toLowerCase rs v =
           filter (\<lambda>r. \<exists>s. visibility r = JStr s
                           \<and> equal_ignoring_case toLowerCase s (visibility_str v)) rs
       \<and> (case filterByVisibility_heap toLowerCase h repos v of (h', res) \<Rightarrow>
             h' ! repos = h ! repos \<and> res \<noteq> repos
           \<and> (\<forall>a < length h. h' ! a = h ! a)
           \<and> h' ! res = filterByVisibility toLowerCase (h ! repos) v)"
proof -
  have "filterByVisibility toLowerCase rs v =
          filter (\<lambda>r. \<exists>s. visibility r = JStr s
                          \<and> equal_ignoring_case toLowerCase s (visibility_str v)) rs"
    unfolding filterByVisibility_def equal_ignoring_case_def assms(1)
    by (rule filter_cong) (auto split: jsfield.splits)
  moreover have "case filterByVisibility_heap toLowerCase h repos v of (h', res) \<Rightarrow>
             h' ! repos = h ! repos \<and> res \<noteq> repos
           \<and> (\<forall>a < length h. h' ! a = h ! a)
           \<and> h' ! res = filterByVisibility toLowerCase (h ! repos) v"
    using assms(2) by (simp add: filterByVisibility_heap_def nth_append)
  ultimately show ?thesis by blast
qed

definition repo_api :: repo where
  "repo_api = \<lparr>name = js ''api'', visibility = JStr (js ''PUBLIC''),
                updatedAt = JStr (js ''2024-03-15T10:20:30Z'')\<rparr>"

definition repo_infra :: repo where
  "repo_infra = \<lparr>name = js ''infra'', visibility = JStr (js ''PRIVATE''),
                  updatedAt = JStr (js ''2023-11-14T22:13:20Z'')\<rparr>"

definition repo_draft :: repo where
  "repo_draft = \<lparr>name = js ''draft'', visibility = JUndefined, updatedAt = JUndefined\<rparr>"

definition repo_site :: repo where
  "repo_site = \<lparr>name = js ''site'', visibility = JStr (js ''Public''),
                 updatedAt = JStr (js ''2023-11-14T22:13:20Z'')\<rparr>"

definition repos_example :: "repo list" where
  "repos_example = [repo_api, repo_infra, repo_draft, repo_site]"

lemmas repo_examples = repo_api_def repo_infra_def repo_draft_def repo_site_def

theorem filterByVisibility_exact_witness:
  "toLowerCase_ascii (visibility_str Public) = visibility_str Public
   \<and> (0::nat) < length [repos_example]
   \<and> filterByVisibility toLowerCase_ascii repos_example Public = [repo_api, repo_site]
   \<and> fst (filterByVisibility_heap toLowerCase_ascii [repos_example] 0 Public) ! 0
       = repos_example"
proof -
  have a: "toLowerCase_ascii (visibility_str Public) = visibility_str Public"
    by (simp add: toLowerCase_ascii_def js_def)
  have b: "(0::nat) < length [repos_example]" by simp
  note t = filterByVisibility_exact [where toLowerCase = toLowerCase_ascii and v = Public
      and h = "[repos_example]" and repos = 0 and rs = repos_example, OF a b]
  have l: "toLowerCase_ascii (js ''PUBLIC'') = js ''public''"
      "toLowerCase_ascii (js ''Public'') = js ''public''"
      "toLowerCase_ascii (js ''PRIVATE'') \<noteq> js ''public''"
      "toLowerCase_ascii (js ''public'') = js ''public''"
    by (simp_all add: toLowerCase_ascii_def js_def)
  have "filterByVisibility toLowerCase_ascii repos_example Public = [repo_api, repo_site]"
    using t l
    by (simp add: equal_ignoring_case_def repos_example_def
        repo_api_def repo_infra_def repo_draft_def repo_site_def)
  moreover have "fst (filterByVisibility_heap toLowerCase_ascii [repos_example] 0 Public) ! 0
       = repos_example"
    using t by (simp add: case_prod_beta)
  ultimately show ?thesis using a b by blast
qed

lemma js_is_Nil [simp]: "js s = [] \<longleftrightarrow> s = []"
  by (simp add: js_def)

subsection \<open>Dates\<close>

text \<open>
  \<open>new Date(v).getTime()\<close> is a number of milliseconds or \<open>NaN\<close> (\<open>None\<close>):
  \<open>new Date(undefined)\<close> is an invalid date, \<open>new Date(null)\<close> is the epoch, and a
  string goes through \<open>Date.parse\<close>. Which strings \<open>Date.parse\<close> accepts beyond the
  ISO format depends on the engine and on the local time zone, so the parser is a
  parameter. A time value is a whole number of milliseconds.
\<close>

definition Date_getTime :: "(jsstring \<Rightarrow> int option) \<Rightarrow> jsfield \<Rightarrow> int option" where
  "Date_getTime parse v =
     (case v of JUndefined \<Rightarrow> None | JNull \<Rightarrow> Some 0 | JStr s \<Rightarrow> parse s)"

text \<open>Comparisons and subtraction of numbers: any comparison with \<open>NaN\<close> is false.\<close>

fun js_lt :: "int option \<Rightarrow> int option \<Rightarrow> bool" where
  "js_lt (Some a) (Some b) = (a < b)"
| "js_lt _ _ = False"

fun js_le :: "int option \<Rightarrow> int option \<Rightarrow> bool" where
  "js_le (Some a) (Some b) = (a \<le> b)"
| "js_le _ _ = False"

fun js_minus :: "int option \<Rightarrow> int option \<Rightarrow> int option" where
  "js_minus (Some a) (Some b) = Some (a - b)"
| "js_minus _ _ = None"

text \<open>
  The parser of the examples: the UTC date-time form \<open>YYYY-MM-DDTHH:mm:ssZ\<close> that
  \<open>gh\<close> prints, every other string being unrecognised (\<open>NaN\<close>). Days are counted
  from 1970-01-01 in the proleptic Gregorian calendar.
\<close>

definition isDigit :: "16 word \<Rightarrow> bool" where
  "isDigit c \<longleftrightarrow> 0x30 \<le> c \<and> c \<le> 0x39"

definition digits :: "jsstring \<Rightarrow> nat \<Rightarrow> nat \<Rightarrow> jsstring" where
  "digits s i n = take n (drop i s)"

definition number :: "jsstring \<Rightarrow> int" where
  "number ds = foldl (\<lambda>a c. a * 10 + (uint c - 48)) 0 ds"

definition isLeapYear :: "int \<Rightarrow> bool" where
  "isLeapYear y \<longleftrightarrow> y mod 4 = 0 \<and> (y mod 100 \<noteq> 0 \<or> y mod 400 = 0)"

definition daysInMonth :: "int \<Rightarrow> int \<Rightarrow> int" where
  "daysInMonth y m =
     (if m = 2 then (if isLeapYear y then 29 else 28)
      else if m = 4 \<or> m = 6 \<or> m = 9 \<or> m = 11 then 30 else 31)"

definition daysFromCivil :: "int \<Rightarrow> int \<Rightarrow> int \<Rightarrow> int" where
  "daysFromCivil y m d =
     (let y' = (if m \<le> 2 then y - 1 else y);
          era = y' div 400;
          yoe = y' - era * 400;
          doy = (153 * (if m > 2 then m - 3 else m + 9) + 2) div 5 + d - 1;
          doe = yoe * 365 + yoe div 4 - yoe div 100 + doy
      in era * 146097 + doe - 719468)"

definition Date_parse_utc :: "jsstring \<Rightarrow> int option" where
  "Date_parse_utc s =
     (if length s = 20 \<and> s ! 4 = 0x2D \<and> s ! 7 = 0x2D \<and> s ! 10 = 0x54
         \<and> s ! 13 = 0x3A \<and> s ! 16 = 0x3A \<and> s ! 19 = 0x5A
         \<and> list_all isDigit (digits s 0 4 @ digits s 5 2 @ digits s 8 2
                               @ digits s 11 2 @ digits s 14 2 @ digits s 17 2)
      then
        (let y = number (digits s 0 4); m = number (digits s 5 2); d = number (digits s 8 2);
             h = number (digits s 11 2); mi = number (digits s 14 2);
             sec = number (digits s 17 2)
         in if 1 \<le> m \<and> m \<le> 12 \<and> 1 \<le> d \<and> d \<le> daysInMonth y m
               \<and> h \<le> 23 \<and> mi \<le> 59 \<and> sec \<le> 59
            then Some ((((daysFromCivil y m d * 24 + h) * 60 + mi) * 60 + sec) * 1000)
            else None)
      else None)"

lemma parse_api: "Date_parse_utc (js ''2024-03-15T10:20:30Z'') = Some 1710498030000"
  by (simp add: Date_parse_utc_def js_def digits_def number_def isDigit_def daysInMonth_def
      daysFromCivil_def Let_def)

lemma parse_infra: "Date_parse_utc (js ''2023-11-14T22:13:20Z'') = Some 1700000000000"
  by (simp add: Date_parse_utc_def js_def digits_def number_def isDigit_def daysInMonth_def
      daysFromCivil_def Let_def)

lemma parse_epoch: "Date_parse_utc (js ''1970-01-01T00:00:00Z'') = Some 0"
  by (simp add: Date_parse_utc_def js_def digits_def number_def isDigit_def daysInMonth_def
      daysFromCivil_def Let_def)

lemma parse_unknown: "Date_parse_utc (js ''unknown'') = None"
  by (simp add: Date_parse_utc_def js_def)

subsection \<open>filterByMonthsAgo and filterOlderThanMonths\<close>

text \<open>
  \<^verbatim>\<open>
  function filterByMonthsAgo(repos: any[], months: number) {
    const now = Date.now()
    const limit = now - months * 30 * 24 * 60 * 60 * 1000
    return repos.filter(r => new Date(r.updatedAt).getTime() >= limit)
  }
  function filterOlderThanMonths(repos: any[], months: number) {
    const now = Date.now()
    const limit = now - months * 30 * 24 * 60 * 60 * 1000
    return repos.filter(r => r.updatedAt && new Date(r.updatedAt).getTime() < limit)
  }
  \<close>
  \<open>now\<close> is what \<open>Date.now()\<close> returns at the call, and \<open>updatedTime\<close> is the
  expression \<open>new Date(r.updatedAt).getTime()\<close>.
\<close>

definition updatedTime :: "(jsstring \<Rightarrow> int option) \<Rightarrow> 'a repo_scheme \<Rightarrow> int option" where
  "updatedTime parse r = Date_getTime parse (updatedAt r)"

text \<open>
  \<open>months\<close> is a number of the language: the one call of \<open>filterByMonthsAgo\<close> passes
  \<open>Number(answer)\<close>, which is \<open>NaN\<close> for an answer that is no numeral and may be a
  fraction or infinite. A finite number is the rational it denotes. The result of a
  product or a difference of finite numbers is rounded to a double, or is an infinity
  on overflow: \<open>fl\<close>, the rounding of the engine, is a parameter. It leaves a whole
  number below \<open>2^53\<close> as it is.
\<close>

datatype jsnumber = NaN | Infinity bool | Finite rat

fun number_times :: "(rat \<Rightarrow> jsnumber) \<Rightarrow> jsnumber \<Rightarrow> jsnumber \<Rightarrow> jsnumber" where
  "number_times fl (Finite a) (Finite b) = fl (a * b)"
| "number_times fl (Finite a) (Infinity s) = (if a = 0 then NaN else Infinity (s = (0 < a)))"
| "number_times fl (Infinity s) (Finite b) = (if b = 0 then NaN else Infinity (s = (0 < b)))"
| "number_times fl (Infinity s) (Infinity s') = Infinity (s = s')"
| "number_times fl _ _ = NaN"

fun number_minus :: "(rat \<Rightarrow> jsnumber) \<Rightarrow> jsnumber \<Rightarrow> jsnumber \<Rightarrow> jsnumber" where
  "number_minus fl (Finite a) (Finite b) = fl (a - b)"
| "number_minus fl (Finite a) (Infinity s) = Infinity (\<not> s)"
| "number_minus fl (Infinity s) (Finite b) = Infinity s"
| "number_minus fl (Infinity s) (Infinity s') = (if s = s' then NaN else Infinity s)"
| "number_minus fl _ _ = NaN"

fun number_ge :: "jsnumber \<Rightarrow> jsnumber \<Rightarrow> bool" where
  "number_ge (Finite a) (Finite b) = (a \<ge> b)"
| "number_ge (Finite a) (Infinity s) = (\<not> s)"
| "number_ge (Infinity s) (Finite b) = s"
| "number_ge (Infinity s) (Infinity s') = (s \<or> \<not> s')"
| "number_ge _ _ = False"

fun number_lt :: "jsnumber \<Rightarrow> jsnumber \<Rightarrow> bool" where
  "number_lt (Finite a) (Finite b) = (a < b)"
| "number_lt (Finite a) (Infinity s) = s"
| "number_lt (Infinity s) (Finite b) = (\<not> s)"
| "number_lt (Infinity s) (Infinity s') = (\<not> s \<and> s')"
| "number_lt _ _ = False"

text \<open>A time value as a number.\<close>

definition time_number :: "int option \<Rightarrow> jsnumber" where
  "time_number t = (case t of None \<Rightarrow> NaN | Some n \<Rightarrow> Finite (of_int n))"

definition filterByMonthsAgo ::
  "(rat \<Rightarrow> jsnumber) \<Rightarrow> (jsstring \<Rightarrow> int option) \<Rightarrow> int \<Rightarrow> 'a repo_scheme list \<Rightarrow> jsnumber
     \<Rightarrow> 'a repo_scheme list" where
  "filterByMonthsAgo fl parse now repos months =
     (let limit = number_minus fl (Finite (of_int now))
                    (number_times fl (number_times fl (number_times fl (number_times fl
                       (number_times fl months (Finite 30)) (Finite 24)) (Finite 60))
                       (Finite 60)) (Finite 1000))
      in filter (\<lambda>r. number_ge (time_number (updatedTime parse r)) limit) repos)"

definition filterOlderThanMonths ::
  "(rat \<Rightarrow> jsnumber) \<Rightarrow> (jsstring \<Rightarrow> int option) \<Rightarrow> int \<Rightarrow> 'a repo_scheme list \<Rightarrow> jsnumber
     \<Rightarrow> 'a repo_scheme list" where
  "filterOlderThanMonths fl parse now repos months =
     (let limit = number_minus fl (Finite (of_int now))
                    (number_times fl (number_times fl (number_times fl (number_times fl
                       (number_times fl months (Finite 30)) (Finite 24)) (Finite 60))
                       (Finite 60)) (Finite 1000))
      in filter (\<lambda>r. truthy (updatedAt r)
                     \<and> number_lt (time_number (updatedTime parse r)) limit) repos)"

text \<open>The limit of both functions.\<close>

definition month_limit :: "(rat \<Rightarrow> jsnumber) \<Rightarrow> int \<Rightarrow> jsnumber \<Rightarrow> jsnumber" where
  "month_limit fl now months =
     number_minus fl (Finite (of_int now))
       (number_times fl (number_times fl (number_times fl (number_times fl (number_times fl
          months (Finite 30)) (Finite 24)) (Finite 60)) (Finite 60)) (Finite 1000))"

text \<open>
  Nothing is rounded on the way to the limit for \<open>q\<close> months at the time \<open>now\<close>: each
  product and the difference is a double. So it is for every whole number of months
  below three million.
\<close>

definition exact_limit :: "(rat \<Rightarrow> jsnumber) \<Rightarrow> int \<Rightarrow> rat \<Rightarrow> bool" where
  "exact_limit fl now q \<longleftrightarrow>
     fl (q * 30) = Finite (q * 30)
     \<and> fl (q * 30 * 24) = Finite (q * 30 * 24)
     \<and> fl (q * 30 * 24 * 60) = Finite (q * 30 * 24 * 60)
     \<and> fl (q * 30 * 24 * 60 * 60) = Finite (q * 30 * 24 * 60 * 60)
     \<and> fl (q * 30 * 24 * 60 * 60 * 1000) = Finite (q * 30 * 24 * 60 * 60 * 1000)
     \<and> fl (of_int now - q * 30 * 24 * 60 * 60 * 1000)
         = Finite (of_int now - q * 30 * 24 * 60 * 60 * 1000)"

lemma month_limit_exact:
  "exact_limit fl now q \<Longrightarrow> month_limit fl now (Finite q) = Finite (of_int now - q * 30 * 86400000)"
  by (simp add: month_limit_def exact_limit_def)

lemma month_limit_NaN: "month_limit fl now NaN = NaN"
  by (simp add: month_limit_def)

lemma number_times_not_NaN:
  "\<forall>x. fl x \<noteq> NaN \<Longrightarrow> a \<noteq> NaN \<Longrightarrow> c \<noteq> 0 \<Longrightarrow> number_times fl a (Finite c) \<noteq> NaN"
  by (cases a) simp_all

lemma number_minus_not_NaN:
  "\<forall>x. fl x \<noteq> NaN \<Longrightarrow> b \<noteq> NaN \<Longrightarrow> number_minus fl (Finite a) b \<noteq> NaN"
  by (cases b) simp_all

lemma month_limit_not_NaN:
  assumes "\<forall>x. fl x \<noteq> NaN" and "months \<noteq> NaN"
  shows "month_limit fl now months \<noteq> NaN"
  unfolding month_limit_def
  by (intro number_minus_not_NaN number_times_not_NaN assms) simp_all

lemma filterByMonthsAgo_limit:
  "filterByMonthsAgo fl parse now repos months
     = filter (\<lambda>r. number_ge (time_number (updatedTime parse r)) (month_limit fl now months)) repos"
  by (simp add: filterByMonthsAgo_def month_limit_def)

lemma filterOlderThanMonths_limit:
  "filterOlderThanMonths fl parse now repos months
     = filter (\<lambda>r. truthy (updatedAt r)
                    \<and> number_lt (time_number (updatedTime parse r)) (month_limit fl now months))
         repos"
  by (simp add: filterOlderThanMonths_def month_limit_def)

lemma number_ge_Finite:
  "number_ge (time_number x) (Finite l) \<longleftrightarrow> (\<exists>t. x = Some t \<and> of_int t \<ge> l)"
  by (cases x) (simp_all add: time_number_def)

lemma number_lt_Finite:
  "number_lt (time_number x) (Finite l) \<longleftrightarrow> (\<exists>t. x = Some t \<and> of_int t < l)"
  by (cases x) (simp_all add: time_number_def)

lemma number_ge_or_lt:
  "l \<noteq> NaN \<Longrightarrow> number_ge (time_number (Some t)) l \<noteq> number_lt (time_number (Some t)) l"
  by (cases l) (auto simp: time_number_def)

lemma number_NaN_compare:
  "\<not> number_ge (time_number None) l" "\<not> number_lt (time_number None) l"
  "\<not> number_ge x NaN" "\<not> number_lt x NaN"
  by (cases l; cases x; simp add: time_number_def)+

lemma updatedTime_example:
  "updatedTime Date_parse_utc repo_api = Some 1710498030000"
  "updatedTime Date_parse_utc repo_infra = Some 1700000000000"
  "updatedTime Date_parse_utc repo_draft = None"
  "updatedTime Date_parse_utc repo_site = Some 1700000000000"
  by (simp_all add: repo_examples updatedTime_def Date_getTime_def parse_api parse_infra)

lemma truthy_example:
  "truthy (updatedAt repo_api)" "truthy (updatedAt repo_infra)"
  "\<not> truthy (updatedAt repo_draft)" "truthy (updatedAt repo_site)"
  by (simp_all add: repo_examples)

text \<open>
  C3 (as amended). For every repository list and current time \<open>T\<close>: for every month
  count \<open>m\<close> that is a finite number with nothing rounded on the way to the limit,
  the limit being \<open>T - m * 30 * 86400000\<close> ms, \<open>filterByMonthsAgo\<close> returns exactly
  the entries whose timestamp is at least the limit and \<open>filterOlderThanMonths\<close>
  exactly the entries that have an \<open>updatedAt\<close> and whose timestamp is below the
  limit; for every \<open>m\<close> that is not \<open>NaN\<close> (rounding never gives \<open>NaN\<close>), an entry
  that has an \<open>updatedAt\<close> which parses to a timestamp is in exactly one of the two
  results; an entry whose timestamp is \<open>NaN\<close> is in neither, and for \<open>m = NaN\<close> both
  results are empty.
\<close>

theorem date_window_filters:
  "(\<forall>q. m = Finite q \<and> exact_limit fl T q \<longrightarrow>
       filterByMonthsAgo fl parse T repos m
         = filter (\<lambda>r. \<exists>t. updatedTime parse r = Some t
                          \<and> of_int t \<ge> of_int T - q * 30 * 86400000) repos
     \<and> filterOlderThanMonths fl parse T repos m
         = filter (\<lambda>r. truthy (updatedAt r)
                        \<and> (\<exists>t. updatedTime parse r = Some t
                                \<and> of_int t < of_int T - q * 30 * 86400000)) repos)
   \<and> ((\<forall>x. fl x \<noteq> NaN) \<and> m \<noteq> NaN \<longrightarrow>
        (\<forall>r \<in> set repos. truthy (updatedAt r) \<and> updatedTime parse r \<noteq> None \<longrightarrow>
           (r \<in> set (filterByMonthsAgo fl parse T repos m))
             \<noteq> (r \<in> set (filterOlderThanMonths fl parse T repos m))))
   \<and> (\<forall>r \<in> set repos. updatedTime parse r = None \<longrightarrow>
         r \<notin> set (filterByMonthsAgo fl parse T repos m)
       \<and> r \<notin> set (filterOlderThanMonths fl parse T repos m))
   \<and> (m = NaN \<longrightarrow>
        filterByMonthsAgo fl parse T repos m = []
      \<and> filterOlderThanMonths fl parse T repos m = [])"
proof -
  have a: "filterByMonthsAgo fl parse T repos m
             = filter (\<lambda>r. \<exists>t. updatedTime parse r = Some t
                              \<and> of_int t \<ge> of_int T - q * 30 * 86400000) repos"
    if "m = Finite q" and "exact_limit fl T q" for q
    using that by (simp add: filterByMonthsAgo_limit month_limit_exact number_ge_Finite)
  have b: "filterOlderThanMonths fl parse T repos m
             = filter (\<lambda>r. truthy (updatedAt r)
                            \<and> (\<exists>t. updatedTime parse r = Some t
                                    \<and> of_int t < of_int T - q * 30 * 86400000)) repos"
    if "m = Finite q" and "exact_limit fl T q" for q
    using that by (simp add: filterOlderThanMonths_limit month_limit_exact number_lt_Finite)
  have c: "(r \<in> set (filterByMonthsAgo fl parse T repos m))
             \<noteq> (r \<in> set (filterOlderThanMonths fl parse T repos m))"
    if "\<forall>x. fl x \<noteq> NaN" and "m \<noteq> NaN" and "r \<in> set repos" and "truthy (updatedAt r)"
      and "updatedTime parse r \<noteq> None" for r
  proof -
    from that(1,2) have l: "month_limit fl T m \<noteq> NaN" by (rule month_limit_not_NaN)
    from that(5) obtain t where "updatedTime parse r = Some t" by blast
    with that(3,4) number_ge_or_lt [OF l, of t] show ?thesis
      by (simp add: filterByMonthsAgo_limit filterOlderThanMonths_limit)
  qed
  have d: "r \<notin> set (filterByMonthsAgo fl parse T repos m)
         \<and> r \<notin> set (filterOlderThanMonths fl parse T repos m)"
    if "updatedTime parse r = None" for r
    using that
    by (simp add: filterByMonthsAgo_limit filterOlderThanMonths_limit number_NaN_compare)
  have e: "filterByMonthsAgo fl parse T repos m = []
         \<and> filterOlderThanMonths fl parse T repos m = []"
    if "m = NaN"
    using that
    by (simp add: filterByMonthsAgo_limit filterOlderThanMonths_limit month_limit_NaN
        number_NaN_compare)
  from a b c d e show ?thesis by blast
qed

lemma exact_limit_example: "exact_limit Finite 1711000000000 3"
  by (simp add: exact_limit_def)

theorem date_window_filters_witness:
  "exact_limit Finite 1711000000000 3
   \<and> filterByMonthsAgo Finite Date_parse_utc 1711000000000 repos_example (Finite 3) = [repo_api]
   \<and> filterOlderThanMonths Finite Date_parse_utc 1711000000000 repos_example (Finite 3)
       = [repo_infra, repo_site]
   \<and> Finite 3 \<noteq> NaN
   \<and> repo_infra \<in> set repos_example
   \<and> truthy (updatedAt repo_infra)
   \<and> updatedTime Date_parse_utc repo_infra \<noteq> None
   \<and> (repo_infra
        \<in> set (filterByMonthsAgo Finite Date_parse_utc 1711000000000 repos_example (Finite 3)))
       \<noteq> (repo_infra
            \<in> set (filterOlderThanMonths Finite Date_parse_utc 1711000000000 repos_example
                     (Finite 3)))
   \<and> updatedTime Date_parse_utc repo_draft = None
   \<and> repo_draft
       \<notin> set (filterByMonthsAgo Finite Date_parse_utc 1711000000000 repos_example (Finite 3))
   \<and> filterByMonthsAgo Finite Date_parse_utc 1711000000000 repos_example NaN = []"
proof -
  note t = date_window_filters [of "Finite 3" Finite 1711000000000 Date_parse_utc repos_example]
  note u = date_window_filters [of NaN Finite 1711000000000 Date_parse_utc repos_example]
  have x: "exact_limit Finite 1711000000000 3" by (rule exact_limit_example)
  have m: "repo_infra \<in> set repos_example" "repo_draft \<in> set repos_example"
    by (simp_all add: repos_example_def)
  have h: "truthy (updatedAt repo_infra)"
    by (simp add: truthy_example)
  have v: "updatedTime Date_parse_utc repo_infra \<noteq> None"
    by (simp add: updatedTime_example)
  have n: "updatedTime Date_parse_utc repo_draft = None"
    by (simp add: updatedTime_example)
  from t x have "filterByMonthsAgo Finite Date_parse_utc 1711000000000 repos_example (Finite 3)
      = filter (\<lambda>r. \<exists>t. updatedTime Date_parse_utc r = Some t
                       \<and> (of_int t :: rat) \<ge> of_int 1711000000000 - 3 * 30 * 86400000)
          repos_example"
    by blast
  then have a: "filterByMonthsAgo Finite Date_parse_utc 1711000000000 repos_example (Finite 3)
      = [repo_api]"
    by (simp add: repos_example_def updatedTime_example)
  from t x have "filterOlderThanMonths Finite Date_parse_utc 1711000000000 repos_example (Finite 3)
      = filter (\<lambda>r. truthy (updatedAt r)
                     \<and> (\<exists>t. updatedTime Date_parse_utc r = Some t
                             \<and> (of_int t :: rat) < of_int 1711000000000 - 3 * 30 * 86400000))
          repos_example"
    by blast
  then have b: "filterOlderThanMonths Finite Date_parse_utc 1711000000000 repos_example (Finite 3)
      = [repo_infra, repo_site]"
    by (simp add: repos_example_def updatedTime_example truthy_example)
  have f: "Finite 3 \<noteq> NaN" by simp
  have g: "\<forall>x. Finite x \<noteq> NaN" by simp
  from t f g m h v have c:
    "(repo_infra
        \<in> set (filterByMonthsAgo Finite Date_parse_utc 1711000000000 repos_example (Finite 3)))
       \<noteq> (repo_infra
            \<in> set (filterOlderThanMonths Finite Date_parse_utc 1711000000000 repos_example
                     (Finite 3)))"
    by blast
  from t m n have d:
    "repo_draft
       \<notin> set (filterByMonthsAgo Finite Date_parse_utc 1711000000000 repos_example (Finite 3))"
    by blast
  from u have e: "filterByMonthsAgo Finite Date_parse_utc 1711000000000 repos_example NaN = []"
    by blast
  from x a b f m(1) h v c n d e show ?thesis by blast
qed

text \<open>
  The claim as stated fails in two ways. An entry whose \<open>updatedAt\<close> is a string that
  is no date has an \<open>updatedAt\<close>, its timestamp is \<open>NaN\<close>, and both comparisons are
  false. And when the month count is \<open>NaN\<close> (\<open>Number\<close> of an answer that is no
  numeral) the limit is \<open>NaN\<close>: an entry with a date is in neither result.
\<close>

definition repo_unparsed :: repo where
  "repo_unparsed = \<lparr>name = js ''legacy'', visibility = JStr (js ''PUBLIC''),
                     updatedAt = JStr (js ''unknown'')\<rparr>"

theorem date_window_complement_counterexample:
  "repo_unparsed \<in> set [repo_unparsed]
   \<and> truthy (updatedAt repo_unparsed)
   \<and> repo_unparsed
       \<notin> set (filterByMonthsAgo Finite Date_parse_utc 1711000000000 [repo_unparsed] (Finite 3))
   \<and> repo_unparsed
       \<notin> set (filterOlderThanMonths Finite Date_parse_utc 1711000000000 [repo_unparsed]
                (Finite 3))
   \<and> repo_api \<in> set [repo_api]
   \<and> truthy (updatedAt repo_api)
   \<and> updatedTime Date_parse_utc repo_api = Some 1710498030000
   \<and> repo_api \<notin> set (filterByMonthsAgo Finite Date_parse_utc 1711000000000 [repo_api] NaN)
   \<and> repo_api \<notin> set (filterOlderThanMonths Finite Date_parse_utc 1711000000000 [repo_api] NaN)"
proof -
  have "updatedTime Date_parse_utc repo_unparsed = None"
    by (simp add: repo_unparsed_def updatedTime_def Date_getTime_def parse_unknown)
  then have "repo_unparsed
       \<notin> set (filterByMonthsAgo Finite Date_parse_utc 1711000000000 [repo_unparsed] (Finite 3))"
    and "repo_unparsed
       \<notin> set (filterOlderThanMonths Finite Date_parse_utc 1711000000000 [repo_unparsed]
                (Finite 3))"
    by (simp_all add: filterByMonthsAgo_limit filterOlderThanMonths_limit number_NaN_compare)
  moreover have "truthy (updatedAt repo_unparsed)"
    by (simp add: repo_unparsed_def)
  moreover have
    "repo_api \<notin> set (filterByMonthsAgo Finite Date_parse_utc 1711000000000 [repo_api] NaN)"
    and "repo_api \<notin> set (filterOlderThanMonths Finite Date_parse_utc 1711000000000 [repo_api] NaN)"
    by (simp_all add: filterByMonthsAgo_limit filterOlderThanMonths_limit month_limit_NaN
        number_NaN_compare)
  ultimately show ?thesis
    by (simp add: truthy_example updatedTime_example)
qed

subsection \<open>sortByUpdated\<close>

text \<open>
  \<open>Array.prototype.sort(comparefn)\<close> is a stable sort: an element moves behind
  another one only when the comparator's result for the pair is a number above zero, a
  \<open>NaN\<close> result counting as zero. For a comparator that orders the elements
  consistently the language fixes the result, which is the list built here; when some
  results are \<open>NaN\<close> the order is left to the engine, and this is one such order.
\<close>

fun sort_insert :: "('a \<Rightarrow> 'a \<Rightarrow> int option) \<Rightarrow> 'a \<Rightarrow> 'a list \<Rightarrow> 'a list" where
  "sort_insert comparefn x [] = [x]"
| "sort_insert comparefn x (y # ys) =
     (if js_lt (Some 0) (comparefn x y) then y # sort_insert comparefn x ys
      else x # y # ys)"

fun Array_sort :: "('a \<Rightarrow> 'a \<Rightarrow> int option) \<Rightarrow> 'a list \<Rightarrow> 'a list" where
  "Array_sort comparefn [] = []"
| "Array_sort comparefn (x # xs) = sort_insert comparefn x (Array_sort comparefn xs)"

text \<open>
  \<^verbatim>\<open>
  function sortByUpdated(repos: any[], order: "asc" | "desc" = "desc") {
    return [...repos].sort((a, b) =>
      order === "desc"
        ? new Date(b.updatedAt).getTime() - new Date(a.updatedAt).getTime()
        : new Date(a.updatedAt).getTime() - new Date(b.updatedAt).getTime())
  }
  \<close>
  The spread copies the list, so the sort works on the copy. An omitted \<open>order\<close>
  (\<open>None\<close>) takes the default.
\<close>

datatype Order = Asc | Desc

definition sortByUpdated ::
  "(jsstring \<Rightarrow> int option) \<Rightarrow> 'a repo_scheme list \<Rightarrow> Order option \<Rightarrow> 'a repo_scheme list" where
  "sortByUpdated parse repos order' =
     (let order = (case order' of None \<Rightarrow> Desc | Some ord \<Rightarrow> ord)
      in Array_sort (\<lambda>a b. if order = Desc
                             then js_minus (updatedTime parse b) (updatedTime parse a)
                             else js_minus (updatedTime parse a) (updatedTime parse b))
           repos)"

text \<open>Non-decreasing and non-increasing sequences of numbers, under \<open>\<le>\<close> of the language.\<close>

definition nondecreasing :: "int option list \<Rightarrow> bool" where
  "nondecreasing ts = sorted_wrt js_le ts"

definition nonincreasing :: "int option list \<Rightarrow> bool" where
  "nonincreasing ts = sorted_wrt (\<lambda>a b. js_le b a) ts"

lemma mset_sort_insert: "mset (sort_insert c x ys) = add_mset x (mset ys)"
  by (induction ys) simp_all

lemma mset_Array_sort: "mset (Array_sort c xs) = mset xs"
  by (induction xs) (simp_all add: mset_sort_insert)

lemma set_Array_sort: "set (Array_sort c xs) = set xs"
  by (metis mset_Array_sort set_mset_mset)

lemma sort_insert_insort_key:
  assumes "\<forall>y \<in> set ys. c x y = Some (key x - key y)"
  shows "sort_insert c x ys = insort_key key x ys"
  using assms by (induction ys) (auto simp: not_le)

lemma Array_sort_sort_key:
  assumes "\<forall>x \<in> set xs. \<forall>y \<in> set xs. c x y = Some (key x - key y)"
  shows "Array_sort c xs = sort_key key xs"
  using assms
proof (induction xs)
  case Nil
  then show ?case by simp
next
  case (Cons x xs)
  then have "Array_sort c xs = sort_key key xs" by simp
  moreover from Cons.prems have "\<forall>y \<in> set (sort_key key xs). c x y = Some (key x - key y)"
    by simp
  ultimately show ?case by (simp add: sort_insert_insort_key)
qed

lemma Array_sort_sorted:
  assumes "\<forall>x \<in> set xs. \<forall>y \<in> set xs. c x y = Some (key x - key y)"
  shows "sorted (map key (Array_sort c xs))"
  by (simp add: Array_sort_sort_key [OF assms])

lemma Array_sort_stable:
  assumes "\<forall>x \<in> set xs. \<forall>y \<in> set xs. c x y = Some (key x - key y)"
  shows "filter (\<lambda>y. key y = v) (Array_sort c xs) = filter (\<lambda>y. key y = v) xs"
  by (simp add: Array_sort_sort_key [OF assms] sort_key_stable)

text \<open>
  With every timestamp a number, sorting by \<open>updatedTime\<close> is sorting by the integer
  key \<open>sg * t\<close>, where \<open>sg\<close> is 1 for ascending and -1 for descending order.
\<close>

lemma sortByUpdated_by_key:
  fixes repos :: "'a repo_scheme list"
  assumes valid: "\<forall>r \<in> set repos. updatedTime parse r = Some (t r)"
      and sg_def: "sg = (if order = Some Asc then 1 else - 1 :: int)"
  shows "sorted (map (\<lambda>r. sg * t r) (sortByUpdated parse repos order))"
    and "filter (\<lambda>r. sg * t r = v) (sortByUpdated parse repos order)
           = filter (\<lambda>r. sg * t r = v) repos"
proof -
  let ?c = "\<lambda>a b. if (case order of None \<Rightarrow> Desc | Some ord \<Rightarrow> ord) = Desc
                  then js_minus (updatedTime parse b) (updatedTime parse a)
                  else js_minus (updatedTime parse a) (updatedTime parse b)"
  have s: "sortByUpdated parse repos order = Array_sort ?c repos"
    by (simp add: sortByUpdated_def)
  have c: "\<forall>x \<in> set repos. \<forall>y \<in> set repos. ?c x y = Some (sg * t x - sg * t y)"
  proof (intro ballI)
    fix x y assume "x \<in> set repos" "y \<in> set repos"
    with valid have "updatedTime parse x = Some (t x)" "updatedTime parse y = Some (t y)"
      by simp_all
    then show "?c x y = Some (sg * t x - sg * t y)"
      by (cases order; cases "the order") (simp_all add: sg_def)
  qed
  show "sorted (map (\<lambda>r. sg * t r) (sortByUpdated parse repos order))"
    unfolding s using c by (rule Array_sort_sorted)
  show "filter (\<lambda>r. sg * t r = v) (sortByUpdated parse repos order)
          = filter (\<lambda>r. sg * t r = v) repos"
    unfolding s using c by (rule Array_sort_stable)
qed

lemma mset_sortByUpdated: "mset (sortByUpdated parse repos order) = mset repos"
  by (simp add: sortByUpdated_def mset_Array_sort)

lemma set_sortByUpdated: "set (sortByUpdated parse repos order) = set repos"
  by (metis mset_sortByUpdated set_mset_mset)

text \<open>
  C5 (as amended). For every repository list in which every entry's \<open>updatedAt\<close>
  gives a timestamp, \<open>sortByUpdated\<close> returns a permutation of the input whose
  timestamps are non-decreasing for the order \<open>"asc"\<close> and non-increasing for
  \<open>"desc"\<close> (the default), and entries with equal timestamps keep their relative
  input order.
\<close>

theorem sortByUpdated_stable_sorted:
  fixes repos :: "'a repo_scheme list"
  assumes valid: "\<forall>r \<in> set repos. updatedTime parse r \<noteq> None"
  shows "mset (sortByUpdated parse repos order) = mset repos
       \<and> (order = Some Asc \<longrightarrow>
            nondecreasing (map (updatedTime parse) (sortByUpdated parse repos order)))
       \<and> (order \<noteq> Some Asc \<longrightarrow>
            nonincreasing (map (updatedTime parse) (sortByUpdated parse repos order)))
       \<and> (\<forall>t. filter (\<lambda>r. updatedTime parse r = t) (sortByUpdated parse repos order)
                = filter (\<lambda>r. updatedTime parse r = t) repos)"
proof -
  let ?res = "sortByUpdated parse repos order"
  define t where "t = (\<lambda>r :: 'a repo_scheme. case updatedTime parse r of Some n \<Rightarrow> n | None \<Rightarrow> 0)"
  define sg where "sg = (if order = Some Asc then 1 else - 1 :: int)"
  have v: "\<forall>r \<in> set repos. updatedTime parse r = Some (t r)"
    using valid by (auto simp: t_def)
  have v': "updatedTime parse r = Some (t r)" if "r \<in> set ?res" for r
    using that v by (simp add: set_sortByUpdated)
  have srt: "sorted (map (\<lambda>r. sg * t r) ?res)"
    using v sg_def by (rule sortByUpdated_by_key(1))
  then have srt': "sorted_wrt (\<lambda>a b. sg * t a \<le> sg * t b) ?res"
    by (simp add: sorted_map)
  have asc: "nondecreasing (map (updatedTime parse) ?res)" if "order = Some Asc"
  proof -
    from that have "sg = 1" by (simp add: sg_def)
    with srt' have "sorted_wrt (\<lambda>a b. t a \<le> t b) ?res" by simp
    then have "sorted_wrt (\<lambda>a b. js_le (updatedTime parse a) (updatedTime parse b)) ?res"
      by (rule sorted_wrt_mono_rel [rotated]) (simp add: v')
    then show ?thesis by (simp add: nondecreasing_def sorted_wrt_map)
  qed
  have desc: "nonincreasing (map (updatedTime parse) ?res)" if "order \<noteq> Some Asc"
  proof -
    from that have "sg = - 1" by (simp add: sg_def)
    with srt' have "sorted_wrt (\<lambda>a b. t b \<le> t a) ?res" by simp
    then have "sorted_wrt (\<lambda>a b. js_le (updatedTime parse b) (updatedTime parse a)) ?res"
      by (rule sorted_wrt_mono_rel [rotated]) (simp add: v')
    then show ?thesis by (simp add: nonincreasing_def sorted_wrt_map)
  qed
  have stable: "filter (\<lambda>r. updatedTime parse r = u) ?res
                  = filter (\<lambda>r. updatedTime parse r = u) repos" for u
  proof (cases u)
    case None
    have "filter (\<lambda>r. updatedTime parse r = None) ?res = []"
      using v' by (auto simp: filter_empty_conv)
    moreover have "filter (\<lambda>r. updatedTime parse r = None) repos = []"
      using v by (auto simp: filter_empty_conv)
    ultimately show ?thesis using None by simp
  next
    case (Some n)
    have sg: "sg \<noteq> 0" by (simp add: sg_def)
    have "filter (\<lambda>r. updatedTime parse r = Some n) ?res
            = filter (\<lambda>r. sg * t r = sg * n) ?res"
      by (rule filter_cong) (use sg in \<open>auto simp: v'\<close>)
    also have "\<dots> = filter (\<lambda>r. sg * t r = sg * n) repos"
      using v sg_def by (rule sortByUpdated_by_key(2))
    also have "\<dots> = filter (\<lambda>r. updatedTime parse r = Some n) repos"
      by (rule filter_cong) (use sg v in auto)
    finally show ?thesis using Some by simp
  qed
  from mset_sortByUpdated [of parse repos order] asc desc stable show ?thesis by blast
qed

definition repos_dated :: "repo list" where
  "repos_dated = [repo_infra, repo_api, repo_site]"

theorem sortByUpdated_stable_sorted_witness:
  "updatedTime Date_parse_utc repo_infra \<noteq> None
   \<and> updatedTime Date_parse_utc repo_api \<noteq> None
   \<and> updatedTime Date_parse_utc repo_site \<noteq> None
   \<and> repos_dated = [repo_infra, repo_api, repo_site]
   \<and> sortByUpdated Date_parse_utc repos_dated (Some Asc)
       = [repo_infra, repo_site, repo_api]
   \<and> sortByUpdated Date_parse_utc repos_dated None
       = [repo_api, repo_infra, repo_site]
   \<and> nondecreasing (map (updatedTime Date_parse_utc)
         (sortByUpdated Date_parse_utc repos_dated (Some Asc)))
   \<and> nonincreasing (map (updatedTime Date_parse_utc)
         (sortByUpdated Date_parse_utc repos_dated None))"
proof -
  have v: "\<forall>r \<in> set repos_dated. updatedTime Date_parse_utc r \<noteq> None"
    by (simp add: repos_dated_def updatedTime_example)
  note a = sortByUpdated_stable_sorted [OF v, of "Some Asc"]
  note d = sortByUpdated_stable_sorted [OF v, of None]
  have "sortByUpdated Date_parse_utc repos_dated (Some Asc)
          = [repo_infra, repo_site, repo_api]"
    by (simp add: sortByUpdated_def repos_dated_def updatedTime_example)
  moreover have "sortByUpdated Date_parse_utc repos_dated None
          = [repo_api, repo_infra, repo_site]"
    by (simp add: sortByUpdated_def repos_dated_def updatedTime_example)
  moreover from a have "nondecreasing (map (updatedTime Date_parse_utc)
         (sortByUpdated Date_parse_utc repos_dated (Some Asc)))"
    by blast
  moreover from d have "nonincreasing (map (updatedTime Date_parse_utc)
         (sortByUpdated Date_parse_utc repos_dated None))"
    by blast
  moreover have "updatedTime Date_parse_utc repo_infra \<noteq> None"
      "updatedTime Date_parse_utc repo_api \<noteq> None"
      "updatedTime Date_parse_utc repo_site \<noteq> None"
    by (simp_all add: updatedTime_example)
  moreover have "repos_dated = [repo_infra, repo_api, repo_site]"
    by (simp add: repos_dated_def)
  ultimately show ?thesis by blast
qed

text \<open>
  A \<open>NaN\<close> is neither below nor above any number: a list of two or more entries one
  of which has no timestamp has no arrangement with non-decreasing timestamps, whatever
  order the engine's sort leaves it in.
\<close>

lemma nondecreasing_no_NaN:
  assumes "nondecreasing ts" and "2 \<le> length ts"
  shows "None \<notin> set ts"
proof
  assume "None \<in> set ts"
  then obtain i where i: "i < length ts" "ts ! i = None"
    by (auto simp: in_set_conv_nth)
  from assms(2) obtain j where j: "j < length ts" "j \<noteq> i"
    by (cases "i = 0") (auto intro: that [of 1] that [of 0])
  from assms(1) have s: "\<And>a b. a < b \<Longrightarrow> b < length ts \<Longrightarrow> js_le (ts ! a) (ts ! b)"
    by (simp add: nondecreasing_def sorted_wrt_iff_nth_less)
  show False
  proof (cases "i < j")
    case True
    with s [of i j] i j show False by simp
  next
    case False
    with j have "j < i" by simp
    with s [of j i] i show False by (cases "ts ! j") simp_all
  qed
qed

lemma no_arrangement_with_NaN:
  fixes xs ys :: "'a repo_scheme list"
  assumes "mset ys = mset xs" and "r \<in> set xs" and "updatedTime parse r = None"
      and "2 \<le> length xs"
  shows "\<not> nondecreasing (map (updatedTime parse) ys)"
proof
  assume n: "nondecreasing (map (updatedTime parse) ys)"
  from assms(1) have "length ys = length xs" by (metis size_mset)
  with assms(4) have "2 \<le> length (map (updatedTime parse) ys)" by simp
  with n have "None \<notin> set (map (updatedTime parse) ys)" by (rule nondecreasing_no_NaN)
  moreover from assms(1,2) have "r \<in> set ys" by (metis set_mset_mset)
  ultimately show False using assms(3) by force
qed

text \<open>
  The claim as stated fails on a list with an entry that has no \<open>updatedAt\<close>: its
  timestamp is \<open>NaN\<close>, and the timestamps of the result are not non-decreasing.
\<close>

theorem sortByUpdated_counterexample:
  "\<not> nondecreasing (map (updatedTime Date_parse_utc)
        (sortByUpdated Date_parse_utc repos_example (Some Asc)))"
  by (simp add: sortByUpdated_def nondecreasing_def repos_example_def updatedTime_example)

section \<open>cloudFlareApp.ts: the DNS API\<close>

text \<open>
  The values the script handles are JSON scalars, and \<open>undefined\<close>. An object (a DNS
  record as the API returns it, a patch, a request payload) is a finite map from
  property names to values: a property that is not there reads as \<open>undefined\<close>, the
  spread \<open>{...a, ...b}\<close> is \<open>a ++ b\<close>, and \<open>JSON.stringify\<close> leaves out the properties
  whose value is \<open>undefined\<close>. A JSON text is represented by the object it denotes.
\<close>

datatype jsvalue = VUndefined | VNull | VBool bool | VNum int | VStr jsstring

type_synonym object = "jsstring \<rightharpoonup> jsvalue"

definition get :: "object \<Rightarrow> jsstring \<Rightarrow> jsvalue" where
  "get obj k = (case obj k of None \<Rightarrow> VUndefined | Some v \<Rightarrow> v)"

text \<open>The operator \<open>a ?? b\<close>.\<close>

definition nullish :: "jsvalue \<Rightarrow> jsvalue \<Rightarrow> jsvalue" where
  "nullish a b = (if a = VUndefined \<or> a = VNull then b else a)"

definition JSON_stringify :: "object \<Rightarrow> object" where
  "JSON_stringify obj = (\<lambda>k. if obj k = Some VUndefined then None else obj k)"

text \<open>
  \<^verbatim>\<open>
  interface CFResponse<T> { success: boolean; result: T; errors: unknown[] }
  \<close>
\<close>

record ('t, 'e) CFResponse =
  success :: bool
  result :: 't
  errors :: "'e list"

text \<open>
  A request as \<open>fetch\<close> receives it, and what comes back: the parsed body, or the
  failure of \<open>fetch\<close> or of \<open>res.json()\<close>, which nothing in the script catches.
\<close>

datatype Method = GET | POST | PUT | DELETE

record RequestInit =
  init_method :: "Method option"
  init_body :: "object option"

record request =
  url :: jsstring
  method' :: Method
  headers :: "(jsstring \<times> jsstring) list"
  body :: "object option"

datatype ('t, 'e) fetched = FetchFailed | Json "('t, 'e) CFResponse"

datatype 'e console_line =
    ConsoleError jsstring "'e list"
  | ConsoleLog jsstring jsvalue

text \<open>
  The world of one run: the answers the server will give, in order (a request beyond
  them fails), the requests sent so far, and what was printed.
\<close>

record ('t, 'e) world =
  pending :: "('t, 'e) fetched list"
  sent :: "request list"
  console :: "'e console_line list"

text \<open>How a call ends without a result: \<open>process.exit\<close>, or a rejected promise.\<close>

datatype stop = Exit int | Rejected

record config =
  TOKEN :: jsstring
  ZONE_ID :: jsstring

definition API :: jsstring where
  "API = js ''https://api.cloudflare.com/client/v4''"

text \<open>
  \<^verbatim>\<open>
  async function cfRequest<T>(path: string, options?: RequestInit): Promise<T> {
    const res = await fetch(`${API}${path}`, {
      ...options,
      headers: { Authorization: `Bearer ${TOKEN}`, 'Content-Type': 'application/json' },
    })
    const json = (await res.json()) as CFResponse<T>
    if (!json.success) {
      console.error('Cloudflare API Error:', json.errors)
      process.exit(1)
    }
    return json.result
  }
  \<close>
\<close>

definition fetch_request :: "config \<Rightarrow> jsstring \<Rightarrow> RequestInit option \<Rightarrow> request" where
  "fetch_request cfg path options =
     \<lparr>url = API @ path,
      method' = (case options of None \<Rightarrow> GET
                | Some i \<Rightarrow> (case init_method i of None \<Rightarrow> GET | Some m \<Rightarrow> m)),
      headers = [(js ''Authorization'', js ''Bearer '' @ TOKEN cfg),
                 (js ''Content-Type'', js ''application/json'')],
      body = (case options of None \<Rightarrow> None | Some i \<Rightarrow> init_body i)\<rparr>"

definition cfRequest ::
  "config \<Rightarrow> jsstring \<Rightarrow> RequestInit option \<Rightarrow> ('t, 'e) world \<Rightarrow> (stop + 't) \<times> ('t, 'e) world" where
  "cfRequest cfg path options w =
     (let w1 = w\<lparr>sent := sent w @ [fetch_request cfg path options]\<rparr>
      in case pending w1 of
           [] \<Rightarrow> (Inl Rejected, w1)
         | FetchFailed # rest \<Rightarrow> (Inl Rejected, w1\<lparr>pending := rest\<rparr>)
         | Json json # rest \<Rightarrow>
             (let w2 = w1\<lparr>pending := rest\<rparr>
              in if \<not> success json
                 then (Inl (Exit 1),
                       w2\<lparr>console := console w2
                            @ [ConsoleError (js ''Cloudflare API Error:'') (errors json)]\<rparr>)
                 else (Inr (result json), w2)))"

text \<open>
  C2. For every call through \<open>cfRequest\<close> that the server answers with an envelope:
  when the success flag is false the error list of the envelope is printed and the
  process exits with status 1, no result being returned; when it is true the call
  returns the result payload and prints nothing. Either way the request was sent.
\<close>

theorem cfRequest_envelope:
  assumes "pending w = Json json # rest"
  shows "(\<not> success json \<longrightarrow>
            fst (cfRequest cfg path options w) = Inl (Exit 1)
          \<and> console (snd (cfRequest cfg path options w))
              = console w @ [ConsoleError (js ''Cloudflare API Error:'') (errors json)])
       \<and> (success json \<longrightarrow>
            fst (cfRequest cfg path options w) = Inr (result json)
          \<and> console (snd (cfRequest cfg path options w)) = console w)
       \<and> sent (snd (cfRequest cfg path options w)) = sent w @ [fetch_request cfg path options]
       \<and> pending (snd (cfRequest cfg path options w)) = rest"
  using assms by (simp add: cfRequest_def Let_def)

definition cfg_example :: config where
  "cfg_example = \<lparr>TOKEN = js ''t0k3n'', ZONE_ID = js ''z1''\<rparr>"

definition record_example :: object where
  "record_example =
     [js ''id'' \<mapsto> VStr (js ''abc123''), js ''type'' \<mapsto> VStr (js ''A''),
      js ''name'' \<mapsto> VStr (js ''test.domain.com''), js ''content'' \<mapsto> VStr (js ''1.1.1.1''),
      js ''ttl'' \<mapsto> VNum 300, js ''proxied'' \<mapsto> VBool True]"

definition world_failure :: "(object, jsstring) world" where
  "world_failure =
     \<lparr>pending = [Json \<lparr>success = False, result = Map.empty,
                         errors = [js ''Authentication error'']\<rparr>],
      sent = [], console = []\<rparr>"

definition world_success :: "(object, jsstring) world" where
  "world_success =
     \<lparr>pending = [Json \<lparr>success = True, result = record_example, errors = []\<rparr>,
                 Json \<lparr>success = True, result = record_example, errors = []\<rparr>],
      sent = [], console = []\<rparr>"

theorem cfRequest_envelope_witness:
  "pending world_failure
     = Json \<lparr>success = False, result = Map.empty, errors = [js ''Authentication error'']\<rparr> # []
   \<and> fst (cfRequest cfg_example (js ''/zones/z1/dns_records'') None world_failure) = Inl (Exit 1)
   \<and> console (snd (cfRequest cfg_example (js ''/zones/z1/dns_records'') None world_failure))
       = [ConsoleError (js ''Cloudflare API Error:'') [js ''Authentication error'']]
   \<and> fst (cfRequest cfg_example (js ''/zones/z1/dns_records/abc123'') None world_success)
       = Inr record_example"
proof -
  have f: "pending world_failure
     = Json \<lparr>success = False, result = Map.empty, errors = [js ''Authentication error'']\<rparr> # []"
    by (simp add: world_failure_def)
  have s: "pending world_success
     = Json \<lparr>success = True, result = record_example, errors = []\<rparr>
       # [Json \<lparr>success = True, result = record_example, errors = []\<rparr>]"
    by (simp add: world_success_def)
  have c: "console world_failure = []" by (simp add: world_failure_def)
  from cfRequest_envelope [OF f, of cfg_example "js ''/zones/z1/dns_records''" None] c
  have "fst (cfRequest cfg_example (js ''/zones/z1/dns_records'') None world_failure) = Inl (Exit 1)"
    and "console (snd (cfRequest cfg_example (js ''/zones/z1/dns_records'') None world_failure))
       = [ConsoleError (js ''Cloudflare API Error:'') [js ''Authentication error'']]"
    by simp_all
  moreover from cfRequest_envelope [OF s, of cfg_example "js ''/zones/z1/dns_records/abc123''" None]
  have "fst (cfRequest cfg_example (js ''/zones/z1/dns_records/abc123'') None world_success)
       = Inr record_example"
    by simp
  ultimately show ?thesis using f by blast
qed

subsection \<open>addRecord\<close>

text \<open>
  \<^verbatim>\<open>
  async function addRecord(input: { type: DNSRecordType; name: string; content: string;
                                    ttl?: number; proxied?: boolean }) {
    const record = await cfRequest<DNSRecord>(`/zones/${ZONE_ID}/dns_records`, {
      method: 'POST',
      body: JSON.stringify({ ttl: 1, proxied: false, ...input }),
    })
    console.log('Record added:', record.id)
  }
  \<close>
\<close>

definition record_defaults :: object where
  "record_defaults = [js ''ttl'' \<mapsto> VNum 1, js ''proxied'' \<mapsto> VBool False]"

definition addRecord ::
  "config \<Rightarrow> object \<Rightarrow> (object, 'e) world \<Rightarrow> (stop + unit) \<times> (object, 'e) world" where
  "addRecord cfg input w =
     (case cfRequest cfg (js ''/zones/'' @ ZONE_ID cfg @ js ''/dns_records'')
             (Some \<lparr>init_method = Some POST,
                    init_body = Some (JSON_stringify (record_defaults ++ input))\<rparr>) w of
        (Inl s, w') \<Rightarrow> (Inl s, w')
      | (Inr record, w') \<Rightarrow>
          (Inr (), w'\<lparr>console := console w'
                        @ [ConsoleLog (js ''Record added:'') (get record (js ''id''))]\<rparr>))"

subsection \<open>updateRecord\<close>

text \<open>
  \<^verbatim>\<open>
  async function updateRecord(id: string, patch: Partial<Omit<DNSRecord, 'id'>>) {
    const current = await cfRequest<DNSRecord>(`/zones/${ZONE_ID}/dns_records/${id}`)
    const payload = {
      type: current.type, name: current.name, content: current.content,
      ttl: current.ttl, proxied: current.proxied ?? false,
      ...patch,
    }
    const record = await cfRequest<DNSRecord>(`/zones/${ZONE_ID}/dns_records/${id}`, {
      method: 'PUT',
      body: JSON.stringify(payload),
    })
    console.log('Record updated:', record.id)
  }
  \<close>
\<close>

definition updatePayload :: "object \<Rightarrow> object \<Rightarrow> object" where
  "updatePayload current patch =
     [js ''type'' \<mapsto> get current (js ''type''),
      js ''name'' \<mapsto> get current (js ''name''),
      js ''content'' \<mapsto> get current (js ''content''),
      js ''ttl'' \<mapsto> get current (js ''ttl''),
      js ''proxied'' \<mapsto> nullish (get current (js ''proxied'')) (VBool False)] ++ patch"

definition record_path :: "config \<Rightarrow> jsstring \<Rightarrow> jsstring" where
  "record_path cfg id' = js ''/zones/'' @ ZONE_ID cfg @ js ''/dns_records/'' @ id'"

definition updateRecord ::
  "config \<Rightarrow> jsstring \<Rightarrow> object \<Rightarrow> (object, 'e) world \<Rightarrow> (stop + unit) \<times> (object, 'e) world" where
  "updateRecord cfg id' patch w =
     (case cfRequest cfg (record_path cfg id') None w of
        (Inl s, w1) \<Rightarrow> (Inl s, w1)
      | (Inr current, w1) \<Rightarrow>
          (case cfRequest cfg (record_path cfg id')
                  (Some \<lparr>init_method = Some PUT,
                         init_body = Some (JSON_stringify (updatePayload current patch))\<rparr>) w1 of
             (Inl s, w2) \<Rightarrow> (Inl s, w2)
           | (Inr record, w2) \<Rightarrow>
               (Inr (), w2\<lparr>console := console w2
                             @ [ConsoleLog (js ''Record updated:'') (get record (js ''id''))]\<rparr>)))"

lemma js_keys_distinct:
  "js ''ttl'' \<noteq> js ''proxied''" "js ''type'' \<noteq> js ''name''" "js ''type'' \<noteq> js ''content''"
  "js ''type'' \<noteq> js ''ttl''" "js ''type'' \<noteq> js ''proxied''" "js ''name'' \<noteq> js ''content''"
  "js ''name'' \<noteq> js ''ttl''" "js ''name'' \<noteq> js ''proxied''" "js ''content'' \<noteq> js ''ttl''"
  "js ''content'' \<noteq> js ''proxied''"
  by (simp_all add: js_def)

lemma sent_cfRequest:
  "sent (snd (cfRequest cfg path options w)) = sent w @ [fetch_request cfg path options]"
  by (simp add: cfRequest_def Let_def split: list.splits fetched.splits)

lemma sent_addRecord:
  "sent (snd (addRecord cfg input w))
     = sent w @ [fetch_request cfg (js ''/zones/'' @ ZONE_ID cfg @ js ''/dns_records'')
                   (Some \<lparr>init_method = Some POST,
                          init_body = Some (JSON_stringify (record_defaults ++ input))\<rparr>)]"
proof -
  let ?c = "cfRequest cfg (js ''/zones/'' @ ZONE_ID cfg @ js ''/dns_records'')
             (Some \<lparr>init_method = Some POST,
                    init_body = Some (JSON_stringify (record_defaults ++ input))\<rparr>) w"
  have "sent (snd (addRecord cfg input w)) = sent (snd ?c)"
    by (cases ?c; cases "fst ?c") (auto simp: addRecord_def)
  then show ?thesis by (simp add: sent_cfRequest)
qed

lemma addRecord_success:
  assumes "pending w = Json json # rest" and "success json"
  shows "fst (addRecord cfg input w) = Inr ()"
    and "console (snd (addRecord cfg input w))
           = console w @ [ConsoleLog (js ''Record added:'') (get (result json) (js ''id''))]"
  using assms by (simp_all add: addRecord_def cfRequest_def Let_def)

text \<open>
  C7. For every input of \<open>addRecord\<close>, the one request sent is the creation call
  (\<open>POST\<close> on the records of the zone) whose body is \<open>{ttl: 1, proxied: false}\<close>
  merged with the given fields: \<open>ttl\<close> is 1 and \<open>proxied\<close> is false where the input
  has no such field, and every field the input gives a value is in the body with that
  value; and when the envelope of the answer is a success, the \<open>id\<close> of the returned
  record is printed.
\<close>

theorem addRecord_body:
  "sent (snd (addRecord cfg input w))
     = sent w @ [\<lparr>url = API @ js ''/zones/'' @ ZONE_ID cfg @ js ''/dns_records'',
                  method' = POST,
                  headers = [(js ''Authorization'', js ''Bearer '' @ TOKEN cfg),
                             (js ''Content-Type'', js ''application/json'')],
                  body = Some (JSON_stringify (record_defaults ++ input))\<rparr>]
   \<and> (js ''ttl'' \<notin> dom input \<longrightarrow>
         JSON_stringify (record_defaults ++ input) (js ''ttl'') = Some (VNum 1))
   \<and> (js ''proxied'' \<notin> dom input \<longrightarrow>
         JSON_stringify (record_defaults ++ input) (js ''proxied'') = Some (VBool False))
   \<and> (\<forall>k v. input k = Some v \<and> v \<noteq> VUndefined \<longrightarrow>
         JSON_stringify (record_defaults ++ input) k = Some v)
   \<and> (\<forall>json rest. pending w = Json json # rest \<and> success json \<longrightarrow>
         fst (addRecord cfg input w) = Inr ()
       \<and> console (snd (addRecord cfg input w))
           = console w @ [ConsoleLog (js ''Record added:'') (get (result json) (js ''id''))])"
proof (intro conjI allI impI)
  show "sent (snd (addRecord cfg input w))
     = sent w @ [\<lparr>url = API @ js ''/zones/'' @ ZONE_ID cfg @ js ''/dns_records'',
                  method' = POST,
                  headers = [(js ''Authorization'', js ''Bearer '' @ TOKEN cfg),
                             (js ''Content-Type'', js ''application/json'')],
                  body = Some (JSON_stringify (record_defaults ++ input))\<rparr>]"
    by (simp add: sent_addRecord fetch_request_def)
next
  assume "js ''ttl'' \<notin> dom input"
  then show "JSON_stringify (record_defaults ++ input) (js ''ttl'') = Some (VNum 1)"
    by (simp add: JSON_stringify_def record_defaults_def map_add_def domIff js_keys_distinct)
next
  assume "js ''proxied'' \<notin> dom input"
  then show "JSON_stringify (record_defaults ++ input) (js ''proxied'') = Some (VBool False)"
    by (simp add: JSON_stringify_def record_defaults_def map_add_def domIff js_keys_distinct)
next
  fix k v assume "input k = Some v \<and> v \<noteq> VUndefined"
  then show "JSON_stringify (record_defaults ++ input) k = Some v"
    by (simp add: JSON_stringify_def map_add_def)
next
  fix json :: "(object, 'a) CFResponse" and rest
  assume "pending w = Json json # rest \<and> success json"
  then show "fst (addRecord cfg input w) = Inr ()"
    by (simp add: addRecord_success)
next
  fix json :: "(object, 'a) CFResponse" and rest
  assume "pending w = Json json # rest \<and> success json"
  then show "console (snd (addRecord cfg input w))
           = console w @ [ConsoleLog (js ''Record added:'') (get (result json) (js ''id''))]"
    by (simp add: addRecord_success)
qed

definition input_example :: object where
  "input_example =
     [js ''type'' \<mapsto> VStr (js ''A''), js ''name'' \<mapsto> VStr (js ''test.domain.com''),
      js ''content'' \<mapsto> VStr (js ''1.1.1.1''), js ''proxied'' \<mapsto> VBool True]"

theorem addRecord_body_witness:
  "js ''ttl'' \<notin> dom input_example
   \<and> JSON_stringify (record_defaults ++ input_example) (js ''ttl'') = Some (VNum 1)
   \<and> input_example (js ''proxied'') = Some (VBool True) \<and> VBool True \<noteq> VUndefined
   \<and> JSON_stringify (record_defaults ++ input_example) (js ''proxied'') = Some (VBool True)
   \<and> pending world_success
       = Json \<lparr>success = True, result = record_example, errors = []\<rparr>
         # [Json \<lparr>success = True, result = record_example, errors = []\<rparr>]
   \<and> success \<lparr>success = True, result = record_example, errors = [] :: jsstring list\<rparr>
   \<and> console (snd (addRecord cfg_example input_example world_success))
       = [ConsoleLog (js ''Record added:'') (VStr (js ''abc123''))]"
proof -
  note t = addRecord_body [of cfg_example input_example world_success]
  have a: "js ''ttl'' \<notin> dom input_example"
    by (simp add: input_example_def js_def)
  have b: "input_example (js ''proxied'') = Some (VBool True)"
    by (simp add: input_example_def)
  have p: "pending world_success
       = Json \<lparr>success = True, result = record_example, errors = []\<rparr>
         # [Json \<lparr>success = True, result = record_example, errors = []\<rparr>]"
    by (simp add: world_success_def)
  have i: "get record_example (js ''id'') = VStr (js ''abc123'')"
    by (simp add: get_def record_example_def js_def)
  have c: "console world_success = []" by (simp add: world_success_def)
  from t a have 1: "JSON_stringify (record_defaults ++ input_example) (js ''ttl'') = Some (VNum 1)"
    by blast
  from t b have 2:
    "JSON_stringify (record_defaults ++ input_example) (js ''proxied'') = Some (VBool True)"
    by blast
  from t p have "console (snd (addRecord cfg_example input_example world_success))
       = console world_success
         @ [ConsoleLog (js ''Record added:'')
              (get (result \<lparr>success = True, result = record_example,
                              errors = [] :: jsstring list\<rparr>) (js ''id''))]"
    by simp
  then have 3: "console (snd (addRecord cfg_example input_example world_success))
       = [ConsoleLog (js ''Record added:'') (VStr (js ''abc123''))]"
    by (simp add: i c)
  from a 1 b 2 p 3 show ?thesis by simp
qed

lemma updateRecord_sent:
  assumes "pending w = Json json # rest" and "success json"
  shows "sent (snd (updateRecord cfg id' patch w))
           = sent w @ [fetch_request cfg (record_path cfg id') None,
                       fetch_request cfg (record_path cfg id')
                         (Some \<lparr>init_method = Some PUT,
                                init_body = Some (JSON_stringify
                                                   (updatePayload (result json) patch))\<rparr>)]"
proof -
  from assms obtain w1 where first:
    "cfRequest cfg (record_path cfg id') None w = (Inr (result json), w1)"
    by (simp add: cfRequest_def Let_def)
  let ?put = "cfRequest cfg (record_path cfg id')
                (Some \<lparr>init_method = Some PUT,
                       init_body = Some (JSON_stringify (updatePayload (result json) patch))\<rparr>)
                w1"
  have w1: "sent w1 = sent w @ [fetch_request cfg (record_path cfg id') None]"
    using sent_cfRequest [of cfg "record_path cfg id'" None w] by (simp add: first)
  have "sent (snd (updateRecord cfg id' patch w)) = sent (snd ?put)"
    by (cases ?put; cases "fst ?put") (auto simp: updateRecord_def first)
  then show ?thesis by (simp add: sent_cfRequest w1)
qed

lemma updatePayload_absent:
  assumes "k \<notin> dom patch"
  shows "k = js ''type'' \<or> k = js ''name'' \<or> k = js ''content'' \<or> k = js ''ttl''
           \<Longrightarrow> updatePayload current patch k = Some (get current k)"
    and "k = js ''proxied''
           \<Longrightarrow> updatePayload current patch k
                 = Some (nullish (get current (js ''proxied'')) (VBool False))"
  using assms by (auto simp: updatePayload_def map_add_def domIff js_keys_distinct)

lemma updatePayload_present:
  assumes "k \<in> dom patch"
  shows "updatePayload current patch k = patch k"
  using assms by (auto simp: updatePayload_def map_add_def)

text \<open>
  C1 (as amended). For every record id and every patch, \<open>updateRecord\<close> first fetches
  the record by id (\<open>GET\<close>); the fetch having succeeded, it then submits a replacement
  (\<open>PUT\<close> on the same path) whose payload has, for each of \<open>type\<close>, \<open>name\<close>,
  \<open>content\<close> and \<open>ttl\<close> that the patch does not have, the value of the fetched
  record; for \<open>proxied\<close>, when the patch does not have it, the value of the fetched
  record if that is neither \<open>undefined\<close> nor \<open>null\<close>, and \<open>false\<close> otherwise; and for
  every field the patch has, the value of the patch.
\<close>

theorem updateRecord_merge:
  assumes "pending w = Json json # rest" and "success json"
  shows "sent (snd (updateRecord cfg id' patch w))
           = sent w @ [\<lparr>url = API @ js ''/zones/'' @ ZONE_ID cfg @ js ''/dns_records/'' @ id',
                        method' = GET,
                        headers = [(js ''Authorization'', js ''Bearer '' @ TOKEN cfg),
                                   (js ''Content-Type'', js ''application/json'')],
                        body = None\<rparr>,
                       \<lparr>url = API @ js ''/zones/'' @ ZONE_ID cfg @ js ''/dns_records/'' @ id',
                        method' = PUT,
                        headers = [(js ''Authorization'', js ''Bearer '' @ TOKEN cfg),
                                   (js ''Content-Type'', js ''application/json'')],
                        body = Some (JSON_stringify (updatePayload (result json) patch))\<rparr>]
       \<and> (\<forall>k \<in> {js ''type'', js ''name'', js ''content'', js ''ttl''}. k \<notin> dom patch \<longrightarrow>
             updatePayload (result json) patch k = Some (get (result json) k))
       \<and> (js ''proxied'' \<notin> dom patch \<longrightarrow>
             updatePayload (result json) patch (js ''proxied'')
               = Some (if get (result json) (js ''proxied'') = VUndefined
                          \<or> get (result json) (js ''proxied'') = VNull
                       then VBool False else get (result json) (js ''proxied'')))
       \<and> (\<forall>k \<in> dom patch. updatePayload (result json) patch k = patch k)"
proof (intro conjI ballI impI)
  show "sent (snd (updateRecord cfg id' patch w))
           = sent w @ [\<lparr>url = API @ js ''/zones/'' @ ZONE_ID cfg @ js ''/dns_records/'' @ id',
                        method' = GET,
                        headers = [(js ''Authorization'', js ''Bearer '' @ TOKEN cfg),
                                   (js ''Content-Type'', js ''application/json'')],
                        body = None\<rparr>,
                       \<lparr>url = API @ js ''/zones/'' @ ZONE_ID cfg @ js ''/dns_records/'' @ id',
                        method' = PUT,
                        headers = [(js ''Authorization'', js ''Bearer '' @ TOKEN cfg),
                                   (js ''Content-Type'', js ''application/json'')],
                        body = Some (JSON_stringify (updatePayload (result json) patch))\<rparr>]"
    by (simp add: updateRecord_sent [OF assms] fetch_request_def record_path_def)
next
  fix k assume "k \<in> {js ''type'', js ''name'', js ''content'', js ''ttl''}" "k \<notin> dom patch"
  then show "updatePayload (result json) patch k = Some (get (result json) k)"
    by (intro updatePayload_absent(1)) auto
next
  assume "js ''proxied'' \<notin> dom patch"
  then show "updatePayload (result json) patch (js ''proxied'')
               = Some (if get (result json) (js ''proxied'') = VUndefined
                          \<or> get (result json) (js ''proxied'') = VNull
                       then VBool False else get (result json) (js ''proxied''))"
    by (simp add: updatePayload_absent(2) nullish_def)
next
  fix k assume "k \<in> dom patch"
  then show "updatePayload (result json) patch k = patch k"
    by (rule updatePayload_present)
qed

definition patch_example :: object where
  "patch_example = [js ''content'' \<mapsto> VStr (js ''8.8.8.8'')]"

lemma get_record_example:
  "get record_example (js ''type'') = VStr (js ''A'')"
  "get record_example (js ''name'') = VStr (js ''test.domain.com'')"
  "get record_example (js ''ttl'') = VNum 300"
  "get record_example (js ''proxied'') = VBool True"
  by (simp_all add: get_def record_example_def js_def)

theorem updateRecord_merge_witness:
  "pending world_success
     = Json \<lparr>success = True, result = record_example, errors = []\<rparr>
       # [Json \<lparr>success = True, result = record_example, errors = []\<rparr>]
   \<and> success \<lparr>success = True, result = record_example, errors = [] :: jsstring list\<rparr>
   \<and> map method' (sent (snd (updateRecord cfg_example (js ''abc123'') patch_example world_success)))
       = [GET, PUT]
   \<and> js ''type'' \<notin> dom patch_example \<and> js ''proxied'' \<notin> dom patch_example
   \<and> js ''content'' \<in> dom patch_example
   \<and> updatePayload record_example patch_example (js ''type'') = Some (VStr (js ''A''))
   \<and> updatePayload record_example patch_example (js ''proxied'') = Some (VBool True)
   \<and> updatePayload record_example patch_example (js ''content'') = Some (VStr (js ''8.8.8.8''))"
proof -
  have p: "pending world_success
     = Json \<lparr>success = True, result = record_example, errors = []\<rparr>
       # [Json \<lparr>success = True, result = record_example, errors = []\<rparr>]"
    by (simp add: world_success_def)
  have s: "success \<lparr>success = True, result = record_example, errors = [] :: jsstring list\<rparr>"
    by simp
  note t = updateRecord_merge [OF p s, of cfg_example "js ''abc123''" patch_example]
  have e: "sent world_success = []" by (simp add: world_success_def)
  have d: "js ''type'' \<notin> dom patch_example" "js ''proxied'' \<notin> dom patch_example"
      "js ''content'' \<in> dom patch_example"
    by (simp_all add: patch_example_def js_keys_distinct js_keys_distinct [symmetric])
  from t have "map method'
      (sent (snd (updateRecord cfg_example (js ''abc123'') patch_example world_success)))
       = [GET, PUT]"
    by (simp add: e)
  moreover from t d(1)
  have "updatePayload record_example patch_example (js ''type'') = Some (VStr (js ''A''))"
    by (simp add: get_record_example)
  moreover from t d(2)
  have "updatePayload record_example patch_example (js ''proxied'') = Some (VBool True)"
    by (simp add: get_record_example)
  moreover from t d(3)
  have "updatePayload record_example patch_example (js ''content'') = Some (VStr (js ''8.8.8.8''))"
    by (simp add: patch_example_def)
  ultimately show ?thesis using p s d by blast
qed

text \<open>
  The claim as stated fails on a fetched record that has no \<open>proxied\<close> (the field is
  optional in \<open>DNSRecord\<close>): the patch does not have the field either, and the
  replacement carries \<open>proxied: false\<close>, which is not the value of the fetched record.
\<close>

definition record_unproxied :: object where
  "record_unproxied =
     [js ''id'' \<mapsto> VStr (js ''abc123''), js ''type'' \<mapsto> VStr (js ''TXT''),
      js ''name'' \<mapsto> VStr (js ''test.domain.com''), js ''content'' \<mapsto> VStr (js ''v=spf1''),
      js ''ttl'' \<mapsto> VNum 300]"

definition world_unproxied :: "(object, jsstring) world" where
  "world_unproxied =
     \<lparr>pending = [Json \<lparr>success = True, result = record_unproxied, errors = []\<rparr>,
                 Json \<lparr>success = True, result = record_unproxied, errors = []\<rparr>],
      sent = [], console = []\<rparr>"

theorem updateRecord_proxied_counterexample:
  "js ''proxied'' \<notin> dom patch_example
   \<and> record_unproxied (js ''proxied'') = None
   \<and> get record_unproxied (js ''proxied'') = VUndefined
   \<and> map body (sent (snd (updateRecord cfg_example (js ''abc123'') patch_example world_unproxied)))
       = [None, Some (JSON_stringify (updatePayload record_unproxied patch_example))]
   \<and> JSON_stringify (updatePayload record_unproxied patch_example) (js ''proxied'')
       = Some (VBool False)
   \<and> Some (VBool False) \<noteq> Some (get record_unproxied (js ''proxied''))"
proof -
  have a: "js ''proxied'' \<notin> dom patch_example"
    by (simp add: patch_example_def js_keys_distinct [symmetric])
  have b: "record_unproxied (js ''proxied'') = None"
    by (simp add: record_unproxied_def js_def)
  then have c: "get record_unproxied (js ''proxied'') = VUndefined"
    by (simp add: get_def)
  have p: "pending world_unproxied
     = Json \<lparr>success = True, result = record_unproxied, errors = []\<rparr>
       # [Json \<lparr>success = True, result = record_unproxied, errors = []\<rparr>]"
    by (simp add: world_unproxied_def)
  have e: "sent world_unproxied = []" by (simp add: world_unproxied_def)
  have d: "map body
      (sent (snd (updateRecord cfg_example (js ''abc123'') patch_example world_unproxied)))
       = [None, Some (JSON_stringify (updatePayload record_unproxied patch_example))]"
    using updateRecord_sent [OF p, of cfg_example "js ''abc123''" patch_example]
    by (simp add: e fetch_request_def)
  have f: "JSON_stringify (updatePayload record_unproxied patch_example) (js ''proxied'')
       = Some (VBool False)"
    using a c by (simp add: JSON_stringify_def updatePayload_absent(2) nullish_def)
  from a b c d f show ?thesis by simp
qed

section \<open>gowaApp.ts and its n8n sibling: the scaffolders\<close>

subsection \<open>Paths\<close>

text \<open>
  \<open>path.join\<close> of Node and Bun on POSIX: the non-empty arguments are joined with a
  slash and the result is normalised. Normalising drops empty and \<open>.\<close> segments and
  lets a \<open>..\<close> segment remove the segment before it; at the start of a relative
  path the \<open>..\<close> segments stay, at the root of an absolute path they are dropped.
\<close>

definition slash :: "16 word" where
  "slash = 0x2F"

definition dot :: jsstring where
  "dot = [0x2E]"

definition dotdot :: jsstring where
  "dotdot = [0x2E, 0x2E]"

fun split_slash :: "jsstring \<Rightarrow> jsstring list" where
  "split_slash [] = [[]]"
| "split_slash (c # cs) =
     (if c = slash then [] # split_slash cs
      else (case split_slash cs of s # ss \<Rightarrow> (c # s) # ss | [] \<Rightarrow> [[c]]))"

fun join_slash :: "jsstring list \<Rightarrow> jsstring" where
  "join_slash [] = []"
| "join_slash [s] = s"
| "join_slash (s # t # ss) = s @ slash # join_slash (t # ss)"

text \<open>
  One step of \<open>normalizeString\<close>: the segments kept so far are a stack, the last
  one on top.
\<close>

definition normalize_step :: "bool \<Rightarrow> jsstring list \<Rightarrow> jsstring \<Rightarrow> jsstring list" where
  "normalize_step allowAboveRoot stack seg =
     (if seg = [] \<or> seg = dot then stack
      else if seg = dotdot then
        (case stack of
           [] \<Rightarrow> if allowAboveRoot then [dotdot] else []
         | seg' # below \<Rightarrow>
             if seg' = dotdot then (if allowAboveRoot then dotdot # stack else stack)
             else below)
      else seg # stack)"

definition normalizeString :: "bool \<Rightarrow> jsstring list \<Rightarrow> jsstring list" where
  "normalizeString allowAboveRoot segs = rev (foldl (normalize_step allowAboveRoot) [] segs)"

definition isAbsolute :: "jsstring \<Rightarrow> bool" where
  "isAbsolute p \<longleftrightarrow> p \<noteq> [] \<and> hd p = slash"

definition path_normalize :: "jsstring \<Rightarrow> jsstring" where
  "path_normalize p =
     (if p = [] then dot
      else
        (let trailing = (last p = slash);
             segs = normalizeString (\<not> isAbsolute p) (split_slash p)
         in if segs = []
            then (if isAbsolute p then [slash] else if trailing then dot @ [slash] else dot)
            else (if isAbsolute p then [slash] else []) @ join_slash segs
                 @ (if trailing then [slash] else [])))"

definition path_join :: "jsstring list \<Rightarrow> jsstring" where
  "path_join parts =
     (let joined = join_slash (filter (\<lambda>s. s \<noteq> []) parts)
      in if joined = [] then dot else path_normalize joined)"

subsection \<open>The file system\<close>

text \<open>
  A path given to the file system names a location: whether it starts at the root, and
  the segments that remain once \<open>.\<close>, \<open>..\<close> and repeated slashes are resolved. The
  file system is the set of directories, the contents of the regular files, and the
  locations that the system will not let the process create or write (no permission, a
  read-only or full device).
\<close>

type_synonym location = "bool \<times> jsstring list"

record filesystem =
  dirs :: "location set"
  files :: "location \<rightharpoonup> jsstring"
  refused :: "location set"

definition locate :: "jsstring \<Rightarrow> location" where
  "locate p = (isAbsolute p, normalizeString (\<not> isAbsolute p) (split_slash p))"

definition trailing_slash :: "jsstring \<Rightarrow> bool" where
  "trailing_slash p \<longleftrightarrow> p \<noteq> [] \<and> last p = slash"

text \<open>
  \<open>existsSync\<close> is true of a directory and of a regular file; a path that ends in a
  slash names a directory only.
\<close>

definition existsSync :: "filesystem \<Rightarrow> jsstring \<Rightarrow> bool" where
  "existsSync fs p \<longleftrightarrow>
     locate p \<in> dirs fs \<or> (locate p \<in> dom (files fs) \<and> \<not> trailing_slash p)"

text \<open>
  The failures of \<open>mkdir\<close> and \<open>writeFile\<close>: a component of the path, or the path
  itself, is a regular file (\<open>ENOTDIR\<close>, \<open>EEXIST\<close>); the path is a directory
  (\<open>EISDIR\<close>); the directory of the file is not there (\<open>ENOENT\<close>); the system
  refuses (\<open>EACCES\<close>, \<open>EROFS\<close>, \<open>ENOSPC\<close>).
\<close>

datatype fs_error = PathIsFile | IsDirectory | NoDirectory | NotPermitted

text \<open>
  \<open>mkdir(p, {recursive: true})\<close> makes the directory and every missing ancestor, and
  leaves a directory that is there as it is.
\<close>

definition ancestors :: "location \<Rightarrow> location set" where
  "ancestors l = (\<lambda>n. (fst l, take n (snd l))) ` {0..length (snd l)}"

definition mkdir :: "filesystem \<Rightarrow> jsstring \<Rightarrow> fs_error + filesystem" where
  "mkdir fs p =
     (let l = locate p in
      if \<exists>a \<in> ancestors l. a \<in> dom (files fs) then Inl PathIsFile
      else if \<exists>a \<in> ancestors l. a \<notin> dirs fs \<and> a \<in> refused fs then Inl NotPermitted
      else Inr (fs\<lparr>dirs := dirs fs \<union> ancestors l\<rparr>))"

text \<open>
  \<open>writeFile(p, data)\<close> makes or replaces the file in a directory that is there. The
  scripts call it with the join of a directory and a file name.
\<close>

definition parent :: "location \<Rightarrow> location" where
  "parent l = (fst l, butlast (snd l))"

definition writeFile :: "filesystem \<Rightarrow> jsstring \<Rightarrow> jsstring \<Rightarrow> fs_error + filesystem" where
  "writeFile fs p data =
     (let l = locate p in
      if l \<in> dirs fs then Inl IsDirectory
      else if parent l \<notin> dirs fs then Inl NoDirectory
      else if l \<in> refused fs then Inl NotPermitted
      else Inr (fs\<lparr>files := (files fs)(l \<mapsto> data)\<rparr>))"

text \<open>
  In a file system every ancestor of what is there is a directory, and nothing is a
  directory and a file at once.
\<close>

definition well_formed :: "filesystem \<Rightarrow> bool" where
  "well_formed fs \<longleftrightarrow>
     (\<forall>l \<in> dirs fs \<union> dom (files fs). \<forall>n < length (snd l). (fst l, take n (snd l)) \<in> dirs fs)
     \<and> dirs fs \<inter> dom (files fs) = {}"

subsection \<open>Arguments and output\<close>

text \<open>
  \<^verbatim>\<open>
  const args = process.argv.slice(2);
  const getArg = (key: string) => {
    const i = args.indexOf(key);
    return i !== -1 ? args[i + 1] : null;
  };
  \<close>
  \<open>None\<close> is \<open>null\<close> (no such flag) as well as \<open>undefined\<close> (the flag is the last
  argument); both are falsy, and so is the empty string. A run ends with an exit
  status, the lines printed and the file system; \<open>Uncaught\<close> is the report of a
  rejection that the script does not handle, after which the status is 1.
\<close>

fun getArg :: "jsstring list \<Rightarrow> jsstring \<Rightarrow> jsstring option" where
  "getArg [] key = None"
| "getArg (a # args) key =
     (if a = key then (case args of [] \<Rightarrow> None | v # _ \<Rightarrow> Some v) else getArg args key)"

datatype line = ConsoleErr jsstring | ConsoleOut jsstring | Uncaught fs_error

record finished =
  exit_status :: int
  printed :: "line list"
  fs_after :: filesystem

definition dquote :: jsstring where
  "dquote = [0x22]"

definition cross_mark :: jsstring where
  "cross_mark = [0x274C]"

definition check_mark :: jsstring where
  "check_mark = [0x2705]"

subsection \<open>gowaApp.ts\<close>

definition CONTAINER_PORT :: jsstring where
  "CONTAINER_PORT = js ''3000''"

definition gowa_composeContent :: "jsstring \<Rightarrow> jsstring \<Rightarrow> jsstring" where
  "gowa_composeContent APP_NAME HOST_PORT =
    (let VOLUME_NAME = APP_NAME in
     js ''name: '' @ APP_NAME @ js ''\<newline>'' @
     js ''\<newline>'' @
     js ''services:\<newline>'' @
     js ''  whatsapp:\<newline>'' @
     js ''    image: aldinokemal2104/go-whatsapp-web-multidevice\<newline>'' @
     js ''    container_name: '' @ APP_NAME @ js ''\<newline>'' @
     js ''    restart: always\<newline>'' @
     js ''\<newline>'' @
     js ''    ports:\<newline>'' @
     js ''      - '' @ dquote @ HOST_PORT @ js '':'' @ CONTAINER_PORT @ dquote @
     js ''\<newline>'' @
     js ''\<newline>'' @
     js ''    volumes:\<newline>'' @
     js ''      - '' @ VOLUME_NAME @ js '':/app/storages\<newline>'' @
     js ''\<newline>'' @
     js ''    command:\<newline>'' @
     js ''      - rest\<newline>'' @
     js ''      - --basic-auth=admin:admin\<newline>'' @
     js ''      - --port='' @ CONTAINER_PORT @ js ''\<newline>'' @
     js ''      - --debug=true\<newline>'' @
     js ''      - --os=Chrome\<newline>'' @
     js ''      - --account-validation=false\<newline>'' @
     js ''\<newline>'' @
     js ''volumes:\<newline>'' @
     js ''  '' @ VOLUME_NAME @ js '':\<newline>'')"

definition gowa_BASE_DIR :: "jsstring \<Rightarrow> jsstring \<Rightarrow> jsstring" where
  "gowa_BASE_DIR HOME APP_NAME = path_join [HOME, js ''dockerApp'', js ''gowaApp'', APP_NAME]"

text \<open>
  The script from top to bottom: the arguments are validated, the target directory
  must not exist, then the directory and the file are made; a call of the file system
  that fails ends the run. \<open>HOME\<close> is what \<open>os.homedir()\<close> returns.
\<close>

definition gowaApp :: "jsstring list \<Rightarrow> jsstring \<Rightarrow> filesystem \<Rightarrow> finished" where
  "gowaApp args HOME fs =
     (case (getArg args (js ''--name''), getArg args (js ''--port'')) of
        (Some APP_NAME, Some HOST_PORT) \<Rightarrow>
          if APP_NAME = [] \<or> HOST_PORT = [] then
            \<lparr>exit_status = 1,
             printed = [ConsoleErr (js ''Usage:''),
                        ConsoleErr (js ''bun src/gowaApp.ts --name 1gowaApp --port 3002'')],
             fs_after = fs\<rparr>
          else
            (let BASE_DIR = gowa_BASE_DIR HOME APP_NAME in
             if existsSync fs BASE_DIR then
               \<lparr>exit_status = 1,
                printed = [ConsoleErr (cross_mark @ js '' Folder already exists: '' @ BASE_DIR)],
                fs_after = fs\<rparr>
             else
               (case mkdir fs BASE_DIR of
                  Inl e \<Rightarrow> \<lparr>exit_status = 1, printed = [Uncaught e], fs_after = fs\<rparr>
                | Inr fs1 \<Rightarrow>
                    (case writeFile fs1 (path_join [BASE_DIR, js ''compose.yaml''])
                            (gowa_composeContent APP_NAME HOST_PORT) of
                       Inl e \<Rightarrow> \<lparr>exit_status = 1, printed = [Uncaught e], fs_after = fs1\<rparr>
                     | Inr fs2 \<Rightarrow>
                         \<lparr>exit_status = 0,
                          printed = [ConsoleOut (check_mark @ js '' GOWA project created''),
                                     ConsoleOut (js ''Name   : '' @ APP_NAME),
                                     ConsoleOut (js ''Port   : '' @ HOST_PORT),
                                     ConsoleOut (js ''Path   : '' @ BASE_DIR),
                                     ConsoleOut [],
                                     ConsoleOut (js ''Next step:''),
                                     ConsoleOut (js ''cd '' @ BASE_DIR
                                                 @ js '' && docker compose up -d'')],
                          fs_after = fs2\<rparr>)))
      | _ \<Rightarrow>
          \<lparr>exit_status = 1,
           printed = [ConsoleErr (js ''Usage:''),
                      ConsoleErr (js ''bun src/gowaApp.ts --name 1gowaApp --port 3002'')],
           fs_after = fs\<rparr>)"

subsection \<open>n8nApp.ts\<close>

definition n8n_envContent :: "jsstring \<Rightarrow> jsstring" where
  "n8n_envContent PORT =
     js ''# ===== CORE =====\<newline>'' @
     js ''N8N_HOST=0.0.0.0\<newline>'' @
     js ''N8N_PORT='' @ PORT @ js ''\<newline>'' @
     js ''N8N_PROTOCOL=http\<newline>'' @
     js ''N8N_LISTEN_ADDRESS=0.0.0.0\<newline>'' @
     js ''\<newline>'' @
     js ''# ===== AUTH =====\<newline>'' @
     js ''N8N_BASIC_AUTH_ACTIVE=true\<newline>'' @
     js ''# ===== PERMISSION =====\<newline>'' @
     js ''N8N_ENFORCE_SETTINGS_FILE_PERMISSIONS=true\<newline>'' @
     js ''\<newline>'' @
     js ''# ===== TIMEZONE =====\<newline>'' @
     js ''TZ=Asia/Jakarta\<newline>''"

definition n8n_composeContent :: "jsstring \<Rightarrow> jsstring" where
  "n8n_composeContent APP_NAME =
    (let NETWORK_NAME = APP_NAME @ js ''_net''; VOLUME_NAME = APP_NAME in
     js ''name: '' @ APP_NAME @ js ''\<newline>'' @
     js ''\<newline>'' @
     js ''services:\<newline>'' @
     js ''  n8n:\<newline>'' @
     js ''    image: n8nio/n8n:latest\<newline>'' @
     js ''    container_name: '' @ APP_NAME @ js ''\<newline>'' @
     js ''    restart: unless-stopped\<newline>'' @
     js ''\<newline>'' @
     js ''    ports:\<newline>'' @
     js ''      - '' @ dquote @ js ''${N8N_PORT}:5678'' @ dquote @ js ''\<newline>'' @
     js ''\<newline>'' @
     js ''    env_file:\<newline>'' @
     js ''      - .env\<newline>'' @
     js ''\<newline>'' @
     js ''    volumes:\<newline>'' @
     js ''      - '' @ VOLUME_NAME @ js '':/home/node/.n8n\<newline>'' @
     js ''\<newline>'' @
     js ''    networks:\<newline>'' @
     js ''      - '' @ NETWORK_NAME @ js ''\<newline>'' @
     js ''\<newline>'' @
     js ''networks:\<newline>'' @
     js ''  '' @ NETWORK_NAME @ js '':\<newline>'' @
     js ''    name: '' @ NETWORK_NAME @ js ''\<newline>'' @
     js ''    driver: bridge\<newline>'' @
     js ''\<newline>'' @
     js ''volumes:\<newline>'' @
     js ''  '' @ VOLUME_NAME @ js '':\<newline>'')"

definition n8n_BASE_DIR :: "jsstring \<Rightarrow> jsstring \<Rightarrow> jsstring" where
  "n8n_BASE_DIR HOME APP_NAME = path_join [HOME, js ''dockerApp'', js ''n8nApp'', APP_NAME]"

definition n8nApp :: "jsstring list \<Rightarrow> jsstring \<Rightarrow> filesystem \<Rightarrow> finished" where
  "n8nApp args HOME fs =
     (case (getArg args (js ''--name''), getArg args (js ''--port'')) of
        (Some APP_NAME, Some PORT) \<Rightarrow>
          if APP_NAME = [] \<or> PORT = [] then
            \<lparr>exit_status = 1,
             printed = [ConsoleErr (js ''Usage:''),
                        ConsoleErr (js ''bun src/n8nApp.ts --name 2n8nApp --port 5679'')],
             fs_after = fs\<rparr>
          else
            (let BASE_DIR = n8n_BASE_DIR HOME APP_NAME in
             if existsSync fs BASE_DIR then
               \<lparr>exit_status = 1,
                printed = [ConsoleErr (cross_mark @ js '' Folder already exists: '' @ BASE_DIR)],
                fs_after = fs\<rparr>
             else
               (case mkdir fs BASE_DIR of
                  Inl e \<Rightarrow> \<lparr>exit_status = 1, printed = [Uncaught e], fs_after = fs\<rparr>
                | Inr fs1 \<Rightarrow>
                    (case writeFile fs1 (path_join [BASE_DIR, js ''.env''])
                            (n8n_envContent PORT) of
                       Inl e \<Rightarrow> \<lparr>exit_status = 1, printed = [Uncaught e], fs_after = fs1\<rparr>
                     | Inr fs2 \<Rightarrow>
                         (case writeFile fs2 (path_join [BASE_DIR, js ''compose.yaml''])
                                 (n8n_composeContent APP_NAME) of
                            Inl e \<Rightarrow>
                              \<lparr>exit_status = 1, printed = [Uncaught e], fs_after = fs2\<rparr>
                          | Inr fs3 \<Rightarrow>
                              \<lparr>exit_status = 0,
                               printed = [ConsoleOut (check_mark @ js '' n8n project created''),
                                          ConsoleOut (js ''Name   : '' @ APP_NAME),
                                          ConsoleOut (js ''Port   : '' @ PORT),
                                          ConsoleOut (js ''Path   : '' @ BASE_DIR),
                                          ConsoleOut [],
                                          ConsoleOut (js ''Next step:''),
                                          ConsoleOut (js ''cd '' @ BASE_DIR
                                                      @ js '' && docker compose up -d'')],
                               fs_after = fs3\<rparr>))))
      | _ \<Rightarrow>
          \<lparr>exit_status = 1,
           printed = [ConsoleErr (js ''Usage:''),
                      ConsoleErr (js ''bun src/n8nApp.ts --name 2n8nApp --port 5679'')],
           fs_after = fs\<rparr>)"

lemma path_examples:
  "path_join [js ''/home/u'', js ''dockerApp'', js ''gowaApp'', js ''wa1'']
     = js ''/home/u/dockerApp/gowaApp/wa1''"
  "path_join [js ''/home/u/'', js ''dockerApp'', js ''gowaApp'', js ''../x/./y/'']
     = js ''/home/u/dockerApp/x/y/''"
  "path_join [js ''rel'', js ''../../a''] = js ''../a''"
  "path_join [js ''/'', js ''../..''] = js ''/''"
  "locate (js ''/home/u/dockerApp/gowaApp/wa1/'') = (True, [js ''home'', js ''u'', js ''dockerApp'', js ''gowaApp'', js ''wa1''])"
  by (simp_all add: path_join_def path_normalize_def normalizeString_def normalize_step_def
      isAbsolute_def js_def slash_def dot_def dotdot_def locate_def)

subsection \<open>Properties of paths\<close>

lemma split_slash_not_Nil: "split_slash p \<noteq> []"
  by (induction p) (auto split: list.splits)

lemma split_slash_append: "split_slash (a @ slash # c) = split_slash a @ split_slash c"
proof (induction a)
  case Nil
  show ?case by simp
next
  case (Cons x a)
  obtain s ss where "split_slash a = s # ss"
    using split_slash_not_Nil [of a] by (cases "split_slash a") auto
  with Cons show ?case by simp
qed

lemma split_slash_plain: "slash \<notin> set s \<Longrightarrow> split_slash s = [s]"
  by (induction s) auto

lemma split_slash_free: "s \<in> set (split_slash p) \<Longrightarrow> slash \<notin> set s"
proof (induction p arbitrary: s)
  case Nil
  then show ?case by simp
next
  case (Cons c p)
  obtain t ts where t: "split_slash p = t # ts"
    using split_slash_not_Nil [of p] by (cases "split_slash p") auto
  show ?case
  proof (cases "c = slash")
    case True
    with Cons show ?thesis by auto
  next
    case False
    with Cons.prems t have "s = c # t \<or> s \<in> set ts" by simp
    with Cons.IH t False show ?thesis by auto
  qed
qed

lemma split_join_slash:
  "ss \<noteq> [] \<Longrightarrow> \<forall>s \<in> set ss. slash \<notin> set s \<Longrightarrow> split_slash (join_slash ss) = ss"
proof (induction ss rule: join_slash.induct)
  case 1
  then show ?case by simp
next
  case (2 s)
  then show ?case by (simp add: split_slash_plain)
next
  case (3 s t ss)
  then show ?case by (simp add: split_slash_append split_slash_plain)
qed

text \<open>
  The stack of kept segments: \<open>..\<close> segments only at the bottom and only for a
  relative path, no empty and no \<open>.\<close> segment.
\<close>

fun stack_ok :: "bool \<Rightarrow> jsstring list \<Rightarrow> bool" where
  "stack_ok up [] = True"
| "stack_ok up (s # below) =
     (if s = dotdot then up \<and> (\<forall>b \<in> set below. b = dotdot)
      else s \<noteq> [] \<and> s \<noteq> dot \<and> stack_ok up below)"

lemma stack_ok_dotdots: "up \<Longrightarrow> \<forall>b \<in> set st. b = dotdot \<Longrightarrow> stack_ok up st"
  by (induction st) auto

lemma stack_ok_step: "stack_ok up st \<Longrightarrow> stack_ok up (normalize_step up st seg)"
  by (cases st) (auto simp: normalize_step_def stack_ok_dotdots split: if_splits)

lemma stack_ok_foldl:
  "stack_ok up st \<Longrightarrow> stack_ok up (foldl (normalize_step up) st segs)"
  by (induction segs arbitrary: st) (simp_all add: stack_ok_step)

lemma stack_ok_suffix: "stack_ok up (a @ b) \<Longrightarrow> stack_ok up b"
  by (induction a) (auto simp: stack_ok_dotdots split: if_splits)

lemma stack_ok_push: "stack_ok up (x # st) \<Longrightarrow> normalize_step up st x = x # st"
  by (cases st) (auto simp: normalize_step_def dotdot_def dot_def split: if_splits)

lemma foldl_normalized:
  "stack_ok up (rev xs @ st) \<Longrightarrow> foldl (normalize_step up) st xs = rev xs @ st"
proof (induction xs arbitrary: st)
  case Nil
  then show ?case by simp
next
  case (Cons x xs)
  then have ok: "stack_ok up (rev xs @ x # st)" by simp
  then have "stack_ok up (x # st)" by (rule stack_ok_suffix)
  then have "normalize_step up st x = x # st" by (rule stack_ok_push)
  with Cons.IH [OF ok] show ?case by simp
qed

lemma normalizeString_ok: "stack_ok up (rev (normalizeString up segs))"
  by (simp add: normalizeString_def stack_ok_foldl)

lemma normalizeString_idem:
  "normalizeString up (normalizeString up segs) = normalizeString up segs"
proof -
  have "stack_ok up (rev (normalizeString up segs) @ [])"
    by (simp add: normalizeString_ok)
  then have "foldl (normalize_step up) [] (normalizeString up segs)
               = rev (normalizeString up segs) @ []"
    by (rule foldl_normalized)
  then show ?thesis by (simp add: normalizeString_def)
qed

lemma normalizeString_empty_front:
  "normalizeString up ([] # segs) = normalizeString up segs"
  by (simp add: normalizeString_def normalize_step_def)

lemma normalizeString_empty_back:
  "normalizeString up (segs @ [[]]) = normalizeString up segs"
  by (simp add: normalizeString_def normalize_step_def)

lemma normalizeString_snoc:
  assumes "f \<noteq> []" "f \<noteq> dot" "f \<noteq> dotdot"
  shows "normalizeString up (segs @ [f]) = normalizeString up segs @ [f]"
  using assms by (simp add: normalizeString_def normalize_step_def)

lemma set_foldl_step:
  "set (foldl (normalize_step up) st segs) \<subseteq> set st \<union> set segs \<union> {dotdot}"
proof (induction segs arbitrary: st)
  case Nil
  show ?case by auto
next
  case (Cons x xs)
  have "set (normalize_step up st x) \<subseteq> set st \<union> {x} \<union> {dotdot}"
    by (cases st) (auto simp: normalize_step_def split: if_splits)
  with Cons [of "normalize_step up st x"] show ?case by auto
qed

lemma normalizeString_free:
  assumes "s \<in> set (normalizeString up (split_slash p))"
  shows "slash \<notin> set s" and "s \<noteq> []"
proof -
  from assms set_foldl_step [of up "[]" "split_slash p"]
  have "s \<in> set (split_slash p) \<or> s = dotdot"
    by (auto simp: normalizeString_def)
  moreover have "slash \<notin> set dotdot"
    by (simp add: dotdot_def slash_def)
  ultimately show "slash \<notin> set s"
    using split_slash_free by blast
  have "stack_ok up (rev (normalizeString up (split_slash p)))"
    by (rule normalizeString_ok)
  moreover have "stack_ok up st \<Longrightarrow> s \<in> set st \<Longrightarrow> s \<noteq> []" for st
    by (induction st) (auto simp: dotdot_def split: if_splits)
  ultimately show "s \<noteq> []" using assms by (metis set_rev)
qed

lemma hd_join_slash:
  assumes "ss \<noteq> []" and "hd ss \<noteq> []"
  shows "join_slash ss \<noteq> []" and "hd (join_slash ss) = hd (hd ss)"
  using assms by (induction ss rule: join_slash.induct) auto

text \<open>Normalising a path does not change the location it names.\<close>

lemma locate_normalize: "locate (path_normalize p) = locate p"
proof (cases "p = []")
  case True
  then show ?thesis
    by (simp add: path_normalize_def locate_def isAbsolute_def normalizeString_def
        normalize_step_def dot_def slash_def)
next
  case False
  define up where "up = (\<not> isAbsolute p)"
  define segs where "segs = normalizeString up (split_slash p)"
  define post where "post = (if last p = slash then [slash] else [])"
  have loc: "locate p = (\<not> up, segs)"
    by (simp add: locate_def up_def segs_def)
  show ?thesis
  proof (cases "segs = []")
    case True
    with False show ?thesis
      unfolding loc unfolding segs_def up_def
      by (simp add: path_normalize_def locate_def isAbsolute_def normalizeString_def
          normalize_step_def dot_def slash_def Let_def)
  next
    case segs: False
    define body where "body = join_slash segs"
    have free: "\<forall>s \<in> set segs. slash \<notin> set s"
      unfolding segs_def using normalizeString_free(1) by blast
    have "hd segs \<in> set segs" using segs by simp
    then have h: "hd segs \<noteq> []" "slash \<notin> set (hd segs)"
      unfolding segs_def using normalizeString_free by blast+
    from h(1) have "hd (hd segs) \<in> set (hd segs)" by simp
    with h(2) have "hd (hd segs) \<noteq> slash" by metis
    with h(1) segs have nb: "body \<noteq> []" "hd body \<noteq> slash"
      unfolding body_def using hd_join_slash [of segs] by simp_all
    have split_body: "split_slash body = segs"
      unfolding body_def using segs free by (rule split_join_slash)
    have "split_slash (body @ post) = segs @ (if last p = slash then [[]] else [])"
      using split_slash_append [of body "[]"] by (simp add: split_body post_def)
    then have norm_bp: "normalizeString up (split_slash (body @ post)) = segs"
      using normalizeString_idem [of up "split_slash p"]
      by (simp add: normalizeString_empty_back segs_def)
    have r: "path_normalize p = (if up then [] else [slash]) @ body @ post"
      using False segs
      by (simp add: path_normalize_def Let_def up_def segs_def body_def post_def)
    show ?thesis
    proof (cases up)
      case True
      then have "path_normalize p = body @ post" by (simp add: r)
      moreover have "\<not> isAbsolute (body @ post)" using nb by (simp add: isAbsolute_def)
      ultimately show ?thesis unfolding loc using True norm_bp by (simp add: locate_def)
    next
      case rooted: False
      then have p: "path_normalize p = slash # body @ post" by (simp add: r)
      have a: "isAbsolute (slash # body @ post)" by (simp add: isAbsolute_def)
      have "split_slash (slash # body @ post) = [] # split_slash (body @ post)" by simp
      then have "normalizeString up (split_slash (slash # body @ post)) = segs"
        using norm_bp by (simp only: normalizeString_empty_front)
      with rooted a show ?thesis unfolding loc p by (simp add: locate_def)
    qed
  qed
qed

lemma path_normalize_not_Nil: "path_normalize p \<noteq> []"
proof (cases "p = [] \<or> normalizeString (\<not> isAbsolute p) (split_slash p) = []")
  case True
  then show ?thesis by (auto simp: path_normalize_def Let_def dot_def)
next
  case False
  let ?segs = "normalizeString (\<not> isAbsolute p) (split_slash p)"
  from False have "hd ?segs \<in> set ?segs" by simp
  then have "hd ?segs \<noteq> []" by (rule normalizeString_free(2))
  with False have "join_slash ?segs \<noteq> []" using hd_join_slash(1) [of ?segs] by simp
  with False show ?thesis by (simp add: path_normalize_def Let_def)
qed

lemma path_join_not_Nil: "path_join parts \<noteq> []"
  by (simp add: path_join_def Let_def path_normalize_not_Nil dot_def)

text \<open>Joining a plain file name to a directory path names the file in that directory.\<close>

lemma locate_join_file:
  assumes "b \<noteq> []" and "f \<noteq> []" and "slash \<notin> set f" and "f \<noteq> dot" and "f \<noteq> dotdot"
  shows "locate (path_join [b, f]) = (fst (locate b), snd (locate b) @ [f])"
proof -
  from assms(1,2) have "path_join [b, f] = path_normalize (b @ slash # f)"
    by (simp add: path_join_def)
  then have 1: "locate (path_join [b, f]) = locate (b @ slash # f)"
    by (simp only: locate_normalize)
  from assms(1) have 2: "isAbsolute (b @ slash # f) = isAbsolute b"
    by (simp add: isAbsolute_def)
  have 3: "split_slash (b @ slash # f) = split_slash b @ [f]"
    using assms(3) by (simp add: split_slash_append split_slash_plain)
  have "locate (b @ slash # f) = (fst (locate b), snd (locate b) @ [f])"
    unfolding locate_def 2 3 using assms(2,4,5) by (simp add: normalizeString_snoc)
  with 1 show ?thesis by (simp only:)
qed

lemma file_names:
  "js ''compose.yaml'' \<noteq> []" "slash \<notin> set (js ''compose.yaml'')"
  "js ''compose.yaml'' \<noteq> dot" "js ''compose.yaml'' \<noteq> dotdot"
  "js ''.env'' \<noteq> []" "slash \<notin> set (js ''.env'')" "js ''.env'' \<noteq> dot" "js ''.env'' \<noteq> dotdot"
  "js ''.env'' \<noteq> js ''compose.yaml''"
  by (simp_all add: js_def slash_def dot_def dotdot_def)

subsection \<open>The target directory exists\<close>

text \<open>
  C8. For every name and port (both given and non-empty) whose target directory, the
  join of the home directory, \<open>dockerApp\<close>, the kind of application and the name,
  already exists, either scaffolder leaves the file system as it was, prints the one
  line that reports the existing folder on the error stream, and exits with status 1.
\<close>

theorem scaffold_existing_directory:
  assumes "getArg args (js ''--name'') = Some APP_NAME"
      and "getArg args (js ''--port'') = Some PORT"
      and "APP_NAME \<noteq> []" and "PORT \<noteq> []"
  shows "(existsSync fs (path_join [HOME, js ''dockerApp'', js ''gowaApp'', APP_NAME]) \<longrightarrow>
            fs_after (gowaApp args HOME fs) = fs
          \<and> exit_status (gowaApp args HOME fs) = 1
          \<and> printed (gowaApp args HOME fs)
              = [ConsoleErr (cross_mark @ js '' Folder already exists: ''
                             @ path_join [HOME, js ''dockerApp'', js ''gowaApp'', APP_NAME])])
       \<and> (existsSync fs (path_join [HOME, js ''dockerApp'', js ''n8nApp'', APP_NAME]) \<longrightarrow>
            fs_after (n8nApp args HOME fs) = fs
          \<and> exit_status (n8nApp args HOME fs) = 1
          \<and> printed (n8nApp args HOME fs)
              = [ConsoleErr (cross_mark @ js '' Folder already exists: ''
                             @ path_join [HOME, js ''dockerApp'', js ''n8nApp'', APP_NAME])])"
  using assms by (simp add: gowaApp_def n8nApp_def gowa_BASE_DIR_def n8n_BASE_DIR_def)

definition args_example :: "jsstring list" where
  "args_example = [js ''--name'', js ''wa1'', js ''--port'', js ''3002'']"

definition fs_home :: filesystem where
  "fs_home = \<lparr>dirs = {(True, []), (True, [js ''home'']), (True, [js ''home'', js ''u''])},
              files = Map.empty, refused = {}\<rparr>"

definition fs_taken :: filesystem where
  "fs_taken = fs_home\<lparr>dirs := dirs fs_home
      \<union> {(True, [js ''home'', js ''u'', js ''dockerApp'']),
         (True, [js ''home'', js ''u'', js ''dockerApp'', js ''gowaApp'']),
         (True, [js ''home'', js ''u'', js ''dockerApp'', js ''gowaApp'', js ''wa1''])}\<rparr>"

lemma args_example_flags:
  "getArg args_example (js ''--name'') = Some (js ''wa1'')"
  "getArg args_example (js ''--port'') = Some (js ''3002'')"
  "js ''wa1'' \<noteq> []" "js ''3002'' \<noteq> []"
  by (simp_all add: args_example_def js_def)

lemma base_dir_example:
  "path_join [js ''/home/u'', js ''dockerApp'', js ''gowaApp'', js ''wa1'']
     = js ''/home/u/dockerApp/gowaApp/wa1''"
  "path_join [js ''/home/u'', js ''dockerApp'', js ''n8nApp'', js ''wa1'']
     = js ''/home/u/dockerApp/n8nApp/wa1''"
  "locate (js ''/home/u/dockerApp/gowaApp/wa1'')
     = (True, [js ''home'', js ''u'', js ''dockerApp'', js ''gowaApp'', js ''wa1''])"
  "locate (js ''/home/u/dockerApp/n8nApp/wa1'')
     = (True, [js ''home'', js ''u'', js ''dockerApp'', js ''n8nApp'', js ''wa1''])"
  by (simp_all add: path_join_def path_normalize_def normalizeString_def normalize_step_def
      isAbsolute_def js_def slash_def dot_def dotdot_def locate_def)

theorem scaffold_existing_directory_witness:
  "getArg args_example (js ''--name'') = Some (js ''wa1'')
   \<and> getArg args_example (js ''--port'') = Some (js ''3002'')
   \<and> js ''wa1'' \<noteq> [] \<and> js ''3002'' \<noteq> []
   \<and> existsSync fs_taken (path_join [js ''/home/u'', js ''dockerApp'', js ''gowaApp'', js ''wa1''])
   \<and> fs_after (gowaApp args_example (js ''/home/u'') fs_taken) = fs_taken
   \<and> exit_status (gowaApp args_example (js ''/home/u'') fs_taken) = 1"
proof -
  have e: "existsSync fs_taken
             (path_join [js ''/home/u'', js ''dockerApp'', js ''gowaApp'', js ''wa1''])"
    by (simp add: base_dir_example existsSync_def fs_taken_def)
  from scaffold_existing_directory [OF args_example_flags, of fs_taken "js ''/home/u''"] e
  have "fs_after (gowaApp args_example (js ''/home/u'') fs_taken) = fs_taken"
    and "exit_status (gowaApp args_example (js ''/home/u'') fs_taken) = 1"
    by blast+
  with e args_example_flags show ?thesis by blast
qed

subsection \<open>The target directory does not exist\<close>

text \<open>
  The file system lets the directory at \<open>l\<close> and the named files in it be made: no
  component of the path is a regular file, and the system refuses none of the
  directories that are missing and none of the files.
\<close>

definition creatable :: "filesystem \<Rightarrow> location \<Rightarrow> jsstring list \<Rightarrow> bool" where
  "creatable fs l names \<longleftrightarrow>
     (\<forall>a \<in> ancestors l. a \<notin> dom (files fs) \<and> (a \<in> dirs fs \<or> a \<notin> refused fs))
     \<and> (\<forall>f \<in> set names. (fst l, snd l @ [f]) \<notin> refused fs)"

lemma sublist_skip: "sublist xs ys \<Longrightarrow> sublist xs (ps @ ys)"
  unfolding sublist_def by (metis append.assoc)

lemma gowa_content_has_values:
  "sublist APP_NAME (gowa_composeContent APP_NAME HOST_PORT)"
  "sublist HOST_PORT (gowa_composeContent APP_NAME HOST_PORT)"
  unfolding gowa_composeContent_def Let_def
  by (intro sublist_appendI sublist_skip)+

lemma n8n_content_has_values:
  "sublist PORT (n8n_envContent PORT)"
  "sublist APP_NAME (n8n_composeContent APP_NAME)"
  unfolding n8n_envContent_def n8n_composeContent_def Let_def
  by (intro sublist_appendI sublist_skip)+

lemma locate_in_ancestors: "l \<in> ancestors l"
  by (cases l) (auto simp: ancestors_def image_iff intro: bexI [of _ "length (snd l)"])

lemma mkdir_creatable:
  assumes "creatable fs (locate p) names"
  shows "mkdir fs p = Inr (fs\<lparr>dirs := dirs fs \<union> ancestors (locate p)\<rparr>)"
  using assms by (auto simp: mkdir_def creatable_def Let_def)

lemma child_not_ancestor: "(fst l, snd l @ [f]) \<notin> ancestors l"
proof
  assume "(fst l, snd l @ [f]) \<in> ancestors l"
  then obtain n where "snd l @ [f] = take n (snd l)"
    by (auto simp: ancestors_def)
  then have "length (snd l @ [f]) = length (take n (snd l))" by simp
  then show False by simp
qed

lemma child_not_dir:
  assumes "well_formed fs" and "l \<notin> dirs fs"
  shows "(fst l, snd l @ [f]) \<notin> dirs fs"
proof
  assume c: "(fst l, snd l @ [f]) \<in> dirs fs"
  from assms(1) have w: "\<And>k n. k \<in> dirs fs \<Longrightarrow> n < length (snd k)
      \<Longrightarrow> (fst k, take n (snd k)) \<in> dirs fs"
    unfolding well_formed_def by blast
  have "(fst l, take (length (snd l)) (snd l @ [f])) \<in> dirs fs"
    using w [OF c, of "length (snd l)"] by simp
  with assms(2) show False by simp
qed

text \<open>A file written into a directory that has just been made.\<close>

lemma writeFile_child:
  assumes "l \<in> D" and "(fst l, snd l @ [f]) \<notin> D" and "(fst l, snd l @ [f]) \<notin> refused fs"
      and "locate p = (fst l, snd l @ [f])" and "dirs fs = D"
  shows "writeFile fs p data = Inr (fs\<lparr>files := (files fs)((fst l, snd l @ [f]) \<mapsto> data)\<rparr>)"
  using assms by (simp add: writeFile_def parent_def Let_def)

lemma gowaApp_creates:
  assumes "getArg args (js ''--name'') = Some APP_NAME"
      and "getArg args (js ''--port'') = Some HOST_PORT"
      and "APP_NAME \<noteq> []" and "HOST_PORT \<noteq> []"
      and wf: "well_formed fs"
      and absent: "\<not> existsSync fs (gowa_BASE_DIR HOME APP_NAME)"
      and cr: "creatable fs (locate (gowa_BASE_DIR HOME APP_NAME)) [js ''compose.yaml'']"
  shows "gowaApp args HOME fs =
           \<lparr>exit_status = 0,
            printed = [ConsoleOut (check_mark @ js '' GOWA project created''),
                       ConsoleOut (js ''Name   : '' @ APP_NAME),
                       ConsoleOut (js ''Port   : '' @ HOST_PORT),
                       ConsoleOut (js ''Path   : '' @ gowa_BASE_DIR HOME APP_NAME),
                       ConsoleOut [],
                       ConsoleOut (js ''Next step:''),
                       ConsoleOut (js ''cd '' @ gowa_BASE_DIR HOME APP_NAME
                                   @ js '' && docker compose up -d'')],
            fs_after =
              fs\<lparr>dirs := dirs fs \<union> ancestors (locate (gowa_BASE_DIR HOME APP_NAME)),
                 files := (files fs)
                   ((fst (locate (gowa_BASE_DIR HOME APP_NAME)),
                     snd (locate (gowa_BASE_DIR HOME APP_NAME)) @ [js ''compose.yaml''])
                    \<mapsto> gowa_composeContent APP_NAME HOST_PORT)\<rparr>\<rparr>"
proof -
  let ?B = "gowa_BASE_DIR HOME APP_NAME"
  let ?l = "locate ?B"
  define fs1 where "fs1 = fs\<lparr>dirs := dirs fs \<union> ancestors ?l\<rparr>"
  let ?c = "(fst ?l, snd ?l @ [js ''compose.yaml''])"
  have "?B \<noteq> []" by (simp add: gowa_BASE_DIR_def path_join_not_Nil)
  then have lc: "locate (path_join [?B, js ''compose.yaml'']) = ?c"
    by (intro locate_join_file file_names)
  have m: "mkdir fs ?B = Inr fs1"
    using cr unfolding fs1_def by (rule mkdir_creatable)
  from absent have "?l \<notin> dirs fs" by (simp add: existsSync_def)
  with wf have "?c \<notin> dirs fs" by (rule child_not_dir)
  then have c1: "?c \<notin> dirs fs \<union> ancestors ?l" by (simp add: child_not_ancestor)
  have l1: "?l \<in> dirs fs \<union> ancestors ?l" by (simp add: locate_in_ancestors)
  from cr have "?c \<notin> refused fs" by (simp add: creatable_def)
  then have r1: "?c \<notin> refused fs1" by (simp add: fs1_def)
  have w: "writeFile fs1 (path_join [?B, js ''compose.yaml'']) (gowa_composeContent APP_NAME HOST_PORT)
             = Inr (fs1\<lparr>files := (files fs1)(?c \<mapsto> gowa_composeContent APP_NAME HOST_PORT)\<rparr>)"
    using l1 c1 r1 lc by (rule writeFile_child) (simp add: fs1_def)
  from assms(1-4) absent show ?thesis
    by (simp add: gowaApp_def m w Let_def) (simp add: fs1_def)
qed

lemma n8nApp_creates:
  assumes "getArg args (js ''--name'') = Some APP_NAME"
      and "getArg args (js ''--port'') = Some PORT"
      and "APP_NAME \<noteq> []" and "PORT \<noteq> []"
      and wf: "well_formed fs"
      and absent: "\<not> existsSync fs (n8n_BASE_DIR HOME APP_NAME)"
      and cr: "creatable fs (locate (n8n_BASE_DIR HOME APP_NAME)) [js ''.env'', js ''compose.yaml'']"
  shows "n8nApp args HOME fs =
           \<lparr>exit_status = 0,
            printed = [ConsoleOut (check_mark @ js '' n8n project created''),
                       ConsoleOut (js ''Name   : '' @ APP_NAME),
                       ConsoleOut (js ''Port   : '' @ PORT),
                       ConsoleOut (js ''Path   : '' @ n8n_BASE_DIR HOME APP_NAME),
                       ConsoleOut [],
                       ConsoleOut (js ''Next step:''),
                       ConsoleOut (js ''cd '' @ n8n_BASE_DIR HOME APP_NAME
                                   @ js '' && docker compose up -d'')],
            fs_after =
              fs\<lparr>dirs := dirs fs \<union> ancestors (locate (n8n_BASE_DIR HOME APP_NAME)),
                 files := (files fs)
                   ((fst (locate (n8n_BASE_DIR HOME APP_NAME)),
                     snd (locate (n8n_BASE_DIR HOME APP_NAME)) @ [js ''.env''])
                    \<mapsto> n8n_envContent PORT,
                    (fst (locate (n8n_BASE_DIR HOME APP_NAME)),
                     snd (locate (n8n_BASE_DIR HOME APP_NAME)) @ [js ''compose.yaml''])
                    \<mapsto> n8n_composeContent APP_NAME)\<rparr>\<rparr>"
proof -
  let ?B = "n8n_BASE_DIR HOME APP_NAME"
  let ?l = "locate ?B"
  define fs1 where "fs1 = fs\<lparr>dirs := dirs fs \<union> ancestors ?l\<rparr>"
  let ?e = "(fst ?l, snd ?l @ [js ''.env''])"
  let ?c = "(fst ?l, snd ?l @ [js ''compose.yaml''])"
  define fs2 where "fs2 = fs1\<lparr>files := (files fs1)(?e \<mapsto> n8n_envContent PORT)\<rparr>"
  have b: "?B \<noteq> []" by (simp add: n8n_BASE_DIR_def path_join_not_Nil)
  then have lc: "locate (path_join [?B, js ''compose.yaml'']) = ?c"
    by (intro locate_join_file file_names)
  from b have le: "locate (path_join [?B, js ''.env'']) = ?e"
    by (intro locate_join_file file_names)
  have m: "mkdir fs ?B = Inr fs1"
    using cr unfolding fs1_def by (rule mkdir_creatable)
  from absent have nl: "?l \<notin> dirs fs" by (simp add: existsSync_def)
  from wf nl have "?c \<notin> dirs fs" by (rule child_not_dir)
  then have c1: "?c \<notin> dirs fs \<union> ancestors ?l" by (simp add: child_not_ancestor)
  from wf nl have "?e \<notin> dirs fs" by (rule child_not_dir)
  then have e1: "?e \<notin> dirs fs \<union> ancestors ?l" by (simp add: child_not_ancestor)
  have l1: "?l \<in> dirs fs \<union> ancestors ?l" by (simp add: locate_in_ancestors)
  from cr have "?e \<notin> refused fs" "?c \<notin> refused fs"
    by (simp_all add: creatable_def)
  then have r: "?e \<notin> refused fs1" "?c \<notin> refused fs2" by (simp_all add: fs1_def fs2_def)
  have w1: "writeFile fs1 (path_join [?B, js ''.env'']) (n8n_envContent PORT) = Inr fs2"
    unfolding fs2_def using l1 e1 r(1) le by (rule writeFile_child) (simp add: fs1_def)
  have w2: "writeFile fs2 (path_join [?B, js ''compose.yaml'']) (n8n_composeContent APP_NAME)
              = Inr (fs2\<lparr>files := (files fs2)(?c \<mapsto> n8n_composeContent APP_NAME)\<rparr>)"
    using l1 c1 r(2) lc by (rule writeFile_child) (simp add: fs1_def fs2_def)
  from assms(1-4) absent show ?thesis
    by (simp add: n8nApp_def m w1 w2 Let_def) (simp add: fs1_def fs2_def)
qed

text \<open>
  C9 (as amended). For every name and port (both given and non-empty) whose target
  directory does not exist, in a file system that lets the directory and the files be
  made (no component of the target path is a regular file, and the system refuses
  none of the missing directories and none of the files), the scaffolder exits with
  status 0 having made the target directory and its missing ancestors, which exists
  afterwards, and having written into it exactly \<open>compose.yaml\<close> (gowa), or exactly
  \<open>.env\<close> and \<open>compose.yaml\<close> (n8n), every other file being as before. The contents
  are the templates with the values put in: the gowa \<open>compose.yaml\<close> contains the
  name and the port, the n8n \<open>.env\<close> contains the port and the n8n \<open>compose.yaml\<close>
  contains the name.
\<close>

theorem scaffold_creates_files:
  assumes "getArg args (js ''--name'') = Some APP_NAME"
      and "getArg args (js ''--port'') = Some PORT"
      and "APP_NAME \<noteq> []" and "PORT \<noteq> []"
      and "well_formed fs"
  shows "(\<not> existsSync fs (gowa_BASE_DIR HOME APP_NAME)
          \<and> creatable fs (locate (gowa_BASE_DIR HOME APP_NAME)) [js ''compose.yaml''] \<longrightarrow>
            exit_status (gowaApp args HOME fs) = 0
          \<and> dirs (fs_after (gowaApp args HOME fs))
              = dirs fs \<union> ancestors (locate (gowa_BASE_DIR HOME APP_NAME))
          \<and> existsSync (fs_after (gowaApp args HOME fs)) (gowa_BASE_DIR HOME APP_NAME)
          \<and> files (fs_after (gowaApp args HOME fs))
              = (files fs)
                  ((fst (locate (gowa_BASE_DIR HOME APP_NAME)),
                    snd (locate (gowa_BASE_DIR HOME APP_NAME)) @ [js ''compose.yaml''])
                   \<mapsto> gowa_composeContent APP_NAME PORT)
          \<and> sublist APP_NAME (gowa_composeContent APP_NAME PORT)
          \<and> sublist PORT (gowa_composeContent APP_NAME PORT))
       \<and> (\<not> existsSync fs (n8n_BASE_DIR HOME APP_NAME)
          \<and> creatable fs (locate (n8n_BASE_DIR HOME APP_NAME))
                [js ''.env'', js ''compose.yaml''] \<longrightarrow>
            exit_status (n8nApp args HOME fs) = 0
          \<and> dirs (fs_after (n8nApp args HOME fs))
              = dirs fs \<union> ancestors (locate (n8n_BASE_DIR HOME APP_NAME))
          \<and> existsSync (fs_after (n8nApp args HOME fs)) (n8n_BASE_DIR HOME APP_NAME)
          \<and> files (fs_after (n8nApp args HOME fs))
              = (files fs)
                  ((fst (locate (n8n_BASE_DIR HOME APP_NAME)),
                    snd (locate (n8n_BASE_DIR HOME APP_NAME)) @ [js ''.env''])
                   \<mapsto> n8n_envContent PORT,
                   (fst (locate (n8n_BASE_DIR HOME APP_NAME)),
                    snd (locate (n8n_BASE_DIR HOME APP_NAME)) @ [js ''compose.yaml''])
                   \<mapsto> n8n_composeContent APP_NAME)
          \<and> files (fs_after (n8nApp args HOME fs))
                (fst (locate (n8n_BASE_DIR HOME APP_NAME)),
                 snd (locate (n8n_BASE_DIR HOME APP_NAME)) @ [js ''.env''])
              = Some (n8n_envContent PORT)
          \<and> sublist PORT (n8n_envContent PORT)
          \<and> sublist APP_NAME (n8n_composeContent APP_NAME))"
proof (intro conjI impI; (elim conjE)?)
  assume a: "\<not> existsSync fs (gowa_BASE_DIR HOME APP_NAME)"
    and c: "creatable fs (locate (gowa_BASE_DIR HOME APP_NAME)) [js ''compose.yaml'']"
  note r = gowaApp_creates [OF assms a c]
  show "exit_status (gowaApp args HOME fs) = 0" by (simp add: r)
  show "dirs (fs_after (gowaApp args HOME fs))
          = dirs fs \<union> ancestors (locate (gowa_BASE_DIR HOME APP_NAME))"
    by (simp add: r)
  show "existsSync (fs_after (gowaApp args HOME fs)) (gowa_BASE_DIR HOME APP_NAME)"
    by (simp add: r existsSync_def locate_in_ancestors)
  show "files (fs_after (gowaApp args HOME fs))
          = (files fs)
              ((fst (locate (gowa_BASE_DIR HOME APP_NAME)),
                snd (locate (gowa_BASE_DIR HOME APP_NAME)) @ [js ''compose.yaml''])
               \<mapsto> gowa_composeContent APP_NAME PORT)"
    by (simp add: r)
next
  assume a: "\<not> existsSync fs (n8n_BASE_DIR HOME APP_NAME)"
    and c: "creatable fs (locate (n8n_BASE_DIR HOME APP_NAME)) [js ''.env'', js ''compose.yaml'']"
  note r = n8nApp_creates [OF assms a c]
  show "exit_status (n8nApp args HOME fs) = 0" by (simp add: r)
  show "dirs (fs_after (n8nApp args HOME fs))
          = dirs fs \<union> ancestors (locate (n8n_BASE_DIR HOME APP_NAME))"
    by (simp add: r)
  show "existsSync (fs_after (n8nApp args HOME fs)) (n8n_BASE_DIR HOME APP_NAME)"
    by (simp add: r existsSync_def locate_in_ancestors)
  show "files (fs_after (n8nApp args HOME fs))
          = (files fs)
              ((fst (locate (n8n_BASE_DIR HOME APP_NAME)),
                snd (locate (n8n_BASE_DIR HOME APP_NAME)) @ [js ''.env''])
               \<mapsto> n8n_envContent PORT,
               (fst (locate (n8n_BASE_DIR HOME APP_NAME)),
                snd (locate (n8n_BASE_DIR HOME APP_NAME)) @ [js ''compose.yaml''])
               \<mapsto> n8n_composeContent APP_NAME)"
    by (simp add: r)
  show "files (fs_after (n8nApp args HOME fs))
          (fst (locate (n8n_BASE_DIR HOME APP_NAME)),
           snd (locate (n8n_BASE_DIR HOME APP_NAME)) @ [js ''.env''])
        = Some (n8n_envContent PORT)"
    by (simp add: r file_names)
qed (rule gowa_content_has_values n8n_content_has_values)+

lemma fs_home_well_formed: "well_formed fs_home"
  by (auto simp: well_formed_def fs_home_def less_Suc_eq)

theorem scaffold_creates_files_witness:
  "getArg args_example (js ''--name'') = Some (js ''wa1'')
   \<and> getArg args_example (js ''--port'') = Some (js ''3002'')
   \<and> js ''wa1'' \<noteq> [] \<and> js ''3002'' \<noteq> []
   \<and> well_formed fs_home
   \<and> \<not> existsSync fs_home (gowa_BASE_DIR (js ''/home/u'') (js ''wa1''))
   \<and> creatable fs_home (locate (gowa_BASE_DIR (js ''/home/u'') (js ''wa1''))) [js ''compose.yaml'']
   \<and> \<not> existsSync fs_home (n8n_BASE_DIR (js ''/home/u'') (js ''wa1''))
   \<and> creatable fs_home (locate (n8n_BASE_DIR (js ''/home/u'') (js ''wa1'')))
         [js ''.env'', js ''compose.yaml'']
   \<and> exit_status (gowaApp args_example (js ''/home/u'') fs_home) = 0
   \<and> (True, [js ''home'', js ''u'', js ''dockerApp'', js ''gowaApp'', js ''wa1''])
       \<in> dirs (fs_after (gowaApp args_example (js ''/home/u'') fs_home))
   \<and> files (fs_after (gowaApp args_example (js ''/home/u'') fs_home))
       = [(True, [js ''home'', js ''u'', js ''dockerApp'', js ''gowaApp'', js ''wa1'',
                  js ''compose.yaml''])
          \<mapsto> gowa_composeContent (js ''wa1'') (js ''3002'')]
   \<and> files (fs_after (n8nApp args_example (js ''/home/u'') fs_home))
         (True, [js ''home'', js ''u'', js ''dockerApp'', js ''n8nApp'', js ''wa1'', js ''.env''])
       = Some (n8n_envContent (js ''3002''))"
proof -
  have g: "\<not> existsSync fs_home (gowa_BASE_DIR (js ''/home/u'') (js ''wa1''))"
    by (simp add: gowa_BASE_DIR_def base_dir_example existsSync_def fs_home_def)
  have n: "\<not> existsSync fs_home (n8n_BASE_DIR (js ''/home/u'') (js ''wa1''))"
    by (simp add: n8n_BASE_DIR_def base_dir_example existsSync_def fs_home_def)
  have cg: "creatable fs_home (locate (gowa_BASE_DIR (js ''/home/u'') (js ''wa1'')))
              [js ''compose.yaml'']"
    by (simp add: creatable_def fs_home_def)
  have cn: "creatable fs_home (locate (n8n_BASE_DIR (js ''/home/u'') (js ''wa1'')))
              [js ''.env'', js ''compose.yaml'']"
    by (simp add: creatable_def fs_home_def)
  have lg: "locate (gowa_BASE_DIR (js ''/home/u'') (js ''wa1''))
              = (True, [js ''home'', js ''u'', js ''dockerApp'', js ''gowaApp'', js ''wa1''])"
    by (simp add: gowa_BASE_DIR_def base_dir_example)
  have ln: "locate (n8n_BASE_DIR (js ''/home/u'') (js ''wa1''))
              = (True, [js ''home'', js ''u'', js ''dockerApp'', js ''n8nApp'', js ''wa1''])"
    by (simp add: n8n_BASE_DIR_def base_dir_example)
  have e: "files fs_home = Map.empty" by (simp add: fs_home_def)
  note t = scaffold_creates_files [OF args_example_flags fs_home_well_formed, of "js ''/home/u''"]
  from t g cg have 1: "exit_status (gowaApp args_example (js ''/home/u'') fs_home) = 0"
    by blast
  from t g cg have "dirs (fs_after (gowaApp args_example (js ''/home/u'') fs_home))
      = dirs fs_home \<union> ancestors (locate (gowa_BASE_DIR (js ''/home/u'') (js ''wa1'')))"
    by blast
  then have 2: "(True, [js ''home'', js ''u'', js ''dockerApp'', js ''gowaApp'', js ''wa1''])
       \<in> dirs (fs_after (gowaApp args_example (js ''/home/u'') fs_home))"
    using locate_in_ancestors [of "locate (gowa_BASE_DIR (js ''/home/u'') (js ''wa1''))"]
    by (simp add: lg)
  from t g cg have "files (fs_after (gowaApp args_example (js ''/home/u'') fs_home))
      = (files fs_home)
          ((fst (locate (gowa_BASE_DIR (js ''/home/u'') (js ''wa1''))),
            snd (locate (gowa_BASE_DIR (js ''/home/u'') (js ''wa1''))) @ [js ''compose.yaml''])
           \<mapsto> gowa_composeContent (js ''wa1'') (js ''3002''))"
    by blast
  then have 3: "files (fs_after (gowaApp args_example (js ''/home/u'') fs_home))
       = [(True, [js ''home'', js ''u'', js ''dockerApp'', js ''gowaApp'', js ''wa1'',
                  js ''compose.yaml''])
          \<mapsto> gowa_composeContent (js ''wa1'') (js ''3002'')]"
    by (simp add: lg e)
  from t n cn have "files (fs_after (n8nApp args_example (js ''/home/u'') fs_home))
                (fst (locate (n8n_BASE_DIR (js ''/home/u'') (js ''wa1''))),
                 snd (locate (n8n_BASE_DIR (js ''/home/u'') (js ''wa1''))) @ [js ''.env''])
              = Some (n8n_envContent (js ''3002''))"
    by blast
  then have 4: "files (fs_after (n8nApp args_example (js ''/home/u'') fs_home))
         (True, [js ''home'', js ''u'', js ''dockerApp'', js ''n8nApp'', js ''wa1'', js ''.env''])
       = Some (n8n_envContent (js ''3002''))"
    by (simp add: ln)
  from args_example_flags fs_home_well_formed g cg n cn 1 2 3 4 show ?thesis by blast
qed

text \<open>
  The claim as stated fails where \<open>dockerApp\<close> in the home directory is a regular
  file: the target directory does not exist, \<open>mkdir\<close> is rejected, nothing handles
  the rejection, and the run ends with status 1 and nothing written.
\<close>

definition fs_blocked :: filesystem where
  "fs_blocked = fs_home\<lparr>files := [(True, [js ''home'', js ''u'', js ''dockerApp''])
                                    \<mapsto> js ''notes'']\<rparr>"

theorem scaffold_blocked_counterexample:
  "getArg args_example (js ''--name'') = Some (js ''wa1'')
   \<and> getArg args_example (js ''--port'') = Some (js ''3002'')
   \<and> js ''wa1'' \<noteq> [] \<and> js ''3002'' \<noteq> []
   \<and> well_formed fs_blocked
   \<and> \<not> existsSync fs_blocked (gowa_BASE_DIR (js ''/home/u'') (js ''wa1''))
   \<and> exit_status (gowaApp args_example (js ''/home/u'') fs_blocked) = 1
   \<and> printed (gowaApp args_example (js ''/home/u'') fs_blocked) = [Uncaught PathIsFile]
   \<and> fs_after (gowaApp args_example (js ''/home/u'') fs_blocked) = fs_blocked"
proof -
  have lg: "locate (gowa_BASE_DIR (js ''/home/u'') (js ''wa1''))
              = (True, [js ''home'', js ''u'', js ''dockerApp'', js ''gowaApp'', js ''wa1''])"
    by (simp add: gowa_BASE_DIR_def base_dir_example)
  have w: "well_formed fs_blocked"
    by (auto simp: well_formed_def fs_blocked_def fs_home_def less_Suc_eq)
  have a: "\<not> existsSync fs_blocked (gowa_BASE_DIR (js ''/home/u'') (js ''wa1''))"
    by (simp add: existsSync_def lg fs_blocked_def fs_home_def)
  have "(True, take 3 [js ''home'', js ''u'', js ''dockerApp'', js ''gowaApp'', js ''wa1''])
          \<in> ancestors (True, [js ''home'', js ''u'', js ''dockerApp'', js ''gowaApp'', js ''wa1''])"
    unfolding ancestors_def by (rule image_eqI [where x = 3]) simp_all
  then have "\<exists>a \<in> ancestors (locate (gowa_BASE_DIR (js ''/home/u'') (js ''wa1''))).
               a \<in> dom (files fs_blocked)"
    unfolding lg by (rule bexI [rotated]) (simp add: fs_blocked_def)
  then have m: "mkdir fs_blocked (gowa_BASE_DIR (js ''/home/u'') (js ''wa1'')) = Inl PathIsFile"
    by (simp add: mkdir_def)
  from a have "gowaApp args_example (js ''/home/u'') fs_blocked
      = \<lparr>exit_status = 1, printed = [Uncaught PathIsFile], fs_after = fs_blocked\<rparr>"
    by (simp add: gowaApp_def args_example_flags m)
  with args_example_flags w a show ?thesis by simp
qed

end
